(* ===== verification/Prelude.thy ===== *)
theory Prelude
  imports Complex_Main "HOL-Library.Word"
begin

text \<open>
  Shared vocabulary of the SHT4x development: the byte type, the Python exceptions the
  driver can raise, the result type that carries them, Python's indexing and slicing on
  lists, and the word lemmas that the checksum and frame proofs share.
\<close>

unbundle bit_operations_syntax

section \<open>Bytes and Python exceptions\<close>

text \<open>A Python \<open>bytearray\<close> element is an int in \<open>[0, 255]\<close>: an 8-bit word read by \<open>uint\<close>.\<close>

type_synonym byte = "8 word"

text \<open>
  The exceptions that can escape the driver's methods:
  \<open>AttributeError\<close> (the mode setter, SHT4X.py line 103), \<open>RuntimeError\<close> (a checksum
  mismatch, lines 81 and 135), \<open>OSError\<close> (a failed bus transaction of smbus2),
  \<open>IndexError\<close> (indexing a \<open>bytearray\<close> out of range), \<open>StructError\<close>
  (\<open>struct.unpack_from\<close> on a short buffer) and \<open>KeyError\<close> (a missing key of
  \<open>Mode.delay\<close>).
\<close>

datatype py_error = AttributeError | RuntimeError | OSError | IndexError | StructError | KeyError
  | ValueError

type_synonym 'a result = "py_error + 'a"

named_theorems frame_simps "evaluation rules for response frames"
named_theorems io_simps "unfolding rules of the bus monad"
named_theorems eval_simps "rules that evaluate the loops of the model on concrete inputs"

section \<open>Python indexing and slicing\<close>

text \<open>
  \<open>xs[i]\<close>: valid for \<open>-len(xs) \<le> i < len(xs)\<close>, a negative index counting from the
  end (which is \<open>i mod len(xs)\<close>); any other index raises IndexError.
\<close>

definition py_index :: "'a list \<Rightarrow> int \<Rightarrow> 'a result" where
  "py_index xs i =
     (if - int (length xs) \<le> i \<and> i < int (length xs)
      then Inr (xs ! nat (i mod int (length xs)))
      else Inl IndexError)"

text \<open>\<open>xs[i:j]\<close> for non-negative bounds: never raises, clipped to the list.\<close>

definition py_slice :: "'a list \<Rightarrow> nat \<Rightarrow> nat \<Rightarrow> 'a list" where
  "py_slice xs i j = take (j - i) (drop i xs)"

text \<open>\<open>d[k]\<close> on a dict: a missing key raises KeyError.\<close>

definition py_dict_get :: "('k \<rightharpoonup> 'v) \<Rightarrow> 'k \<Rightarrow> 'v result" where
  "py_dict_get d k = (case d k of None \<Rightarrow> Inl KeyError | Some v \<Rightarrow> Inr v)"

lemma py_index_nat [simp]:
  "py_index xs (int i) = (if i < length xs then Inr (xs ! i) else Inl IndexError)"
  by (simp add: py_index_def)

lemma py_index_numeral [simp, frame_simps]:
  "py_index xs (numeral k) =
     (if numeral k < length xs then Inr (xs ! numeral k) else Inl IndexError)"
  using py_index_nat [of xs "numeral k"] by simp

lemma py_index_one [simp, frame_simps]:
  "py_index xs 1 = (if 1 < length xs then Inr (xs ! 1) else Inl IndexError)"
  using py_index_nat [of xs 1] by simp

lemma py_index_zero [simp, frame_simps]:
  "py_index xs 0 = (case xs of [] \<Rightarrow> Inl IndexError | x # _ \<Rightarrow> Inr x)"
  by (simp add: py_index_def split: list.split)

lemma py_slice_length [simp]: "length (py_slice xs i j) = min (j - i) (length xs - i)"
  by (simp add: py_slice_def)

declare py_slice_def [frame_simps]

lemma py_dict_get_simps [simp]:
  "d k = None \<Longrightarrow> py_dict_get d k = Inl KeyError"
  "d k = Some v \<Longrightarrow> py_dict_get d k = Inr v"
  by (simp_all add: py_dict_get_def)

section \<open>Word lemmas shared by the checksum and the frame proofs\<close>

lemma and_0x80_iff_bit: "((c :: byte) AND 0x80 \<noteq> 0) = bit c 7"
  using and_exp_eq_0_iff_not_bit [of c 7] by simp

lemma int_and_0x80_iff_bit: "((c :: int) AND 0x80 \<noteq> 0) = bit c 7"
  using and_exp_eq_0_iff_not_bit [of c 7] by simp

lemma int_and_0xFF_take_bit: "(c :: int) AND 0xFF = take_bit 8 c"
  by (simp add: take_bit_eq_mask mask_numeral)

lemma uint_of_int_take_bit: "uint (word_of_int c :: byte) = take_bit 8 c"
  by (simp add: uint_word_of_int_eq)

lemma byte_xor_self_zero [simp]: "(b :: byte) XOR b = 0"
  by simp

lemma byte_xor_left_cancel [simp]: "((a :: byte) XOR b = a XOR c) \<longleftrightarrow> b = c"
  by (metis xor.assoc xor.left_neutral xor_self_eq)

lemma nat_less_8_cases:
  "(k::nat) < 8 \<Longrightarrow> k = 0 \<or> k = 1 \<or> k = 2 \<or> k = 3 \<or> k = 4 \<or> k = 5 \<or> k = 6 \<or> k = 7"
  by arith

lemma nat_less_6_cases:
  "(p::nat) < 6 \<Longrightarrow> p = 0 \<or> p = 1 \<or> p = 2 \<or> p = 3 \<or> p = 4 \<or> p = 5"
  by arith

lemma push_bit_one_byte_cases:
  "k < 8 \<Longrightarrow> push_bit k (1::byte) \<in> {1, 2, 4, 8, 0x10, 0x20, 0x40, 0x80}"
  by (drule nat_less_8_cases) (elim disjE; simp)

lemma push_bit_one_byte_neq_0: "k < 8 \<Longrightarrow> push_bit k (1::byte) \<noteq> 0"
proof
  assume k: "k < 8" and z: "push_bit k (1::byte) = 0"
  have "bit (push_bit k (1::byte)) k" using k by (simp add: bit_exp_iff)
  with z k show False by simp
qed

lemma push_bit_one_byte_xor_neq_0:
  assumes "k < 8" and "k \<noteq> l"
  shows "push_bit k (1::byte) XOR push_bit l 1 \<noteq> 0"
proof
  assume "push_bit k (1::byte) XOR push_bit l 1 = 0"
  then have "bit (push_bit k (1::byte) XOR push_bit l 1) k" if False using that by simp
  moreover have "bit (push_bit k (1::byte) XOR push_bit l 1) k"
    using assms by (simp add: bit_xor_iff bit_push_bit_iff bit_exp_iff)
  ultimately show False using \<open>push_bit k (1::byte) XOR push_bit l 1 = 0\<close> by simp
qed

lemma xor_left_self [simp]: "(a :: 'a :: semiring_bit_operations) XOR (a XOR b) = b"
  by (simp flip: xor.assoc)

end
