(* ===== verification/Mode.thy ===== *)
theory Mode
  imports Prelude
begin

text \<open>
  The mode table (SHT4X.py lines 13-52). The helper class \<open>CV\<close> builds, from a list of
  \<open>(name, value, string, delay)\<close> tuples, a class attribute per name and two dictionaries
  keyed by the value, \<open>string\<close> and \<open>delay\<close>; \<open>is_valid\<close> is membership in
  \<open>string\<close>. \<open>Mode\<close> is \<open>CV\<close> filled with the nine command codes of the sensor. The
  class is a record of its three maps, \<open>add_values\<close> a recursion over the tuples in
  their order. The lemmas: \<open>string\<close> and \<open>delay\<close> always have the same keys; the
  table evaluates to the nine codes, each a byte, with the datasheet's delays.
\<close>

section \<open>The helper class CV\<close>

text \<open>
  A class built by \<open>add_values\<close>: \<open>cv_attrs\<close> the attributes \<open>setattr\<close> created
  (\<open>Mode.NOHEAT_HIGHPRECISION\<close> and so on), \<open>cv_string\<close> and \<open>cv_delay\<close> the
  dictionaries \<open>cls.string\<close> and \<open>cls.delay\<close>.
\<close>

record cv =
  cv_attrs :: "string \<rightharpoonup> int"
  cv_string :: "int \<rightharpoonup> string"
  cv_delay :: "int \<rightharpoonup> real"

type_synonym cv_value = "string \<times> int \<times> string \<times> real"

text \<open>The loop \<open>for value_tuple in value_tuples\<close>, lines 22-26.\<close>

fun add_values_loop :: "cv \<Rightarrow> cv_value list \<Rightarrow> cv" where
  "add_values_loop cls [] = cls"
| "add_values_loop cls ((name, value, str, delay) # value_tuples) =
     add_values_loop
       (cls\<lparr>cv_attrs := (cv_attrs cls)(name \<mapsto> value),
            cv_string := (cv_string cls)(value \<mapsto> str),
            cv_delay := (cv_delay cls)(value \<mapsto> delay)\<rparr>)
       value_tuples"

text \<open>\<open>CV.add_values\<close>, lines 16-26: both dictionaries are reset before the loop.\<close>

definition add_values :: "cv \<Rightarrow> cv_value list \<Rightarrow> cv" where
  "add_values cls value_tuples =
     add_values_loop (cls\<lparr>cv_string := Map.empty, cv_delay := Map.empty\<rparr>) value_tuples"

text \<open>\<open>CV.is_valid\<close>, lines 28-31: \<open>value in cls.string\<close>.\<close>

definition is_valid :: "cv \<Rightarrow> int \<Rightarrow> bool" where
  "is_valid cls value \<longleftrightarrow> cv_string cls value \<noteq> None"

section \<open>The Mode class\<close>

text \<open>The tuples passed to \<open>Mode.add_values\<close>, lines 40-52, in the source's order.\<close>

definition mode_values :: "cv_value list" where
  "mode_values =
     [(''NOHEAT_HIGHPRECISION'', 0xFD, ''No heater, high precision'', 0.01),
      (''NOHEAT_MEDPRECISION'', 0xF6, ''No heater, med precision'', 0.005),
      (''NOHEAT_LOWPRECISION'', 0xE0, ''No heater, low precision'', 0.002),
      (''HIGHHEAT_1S'', 0x39, ''High heat, 1 second'', 1.1),
      (''HIGHHEAT_100MS'', 0x32, ''High heat, 0.1 second'', 0.11),
      (''MEDHEAT_1S'', 0x2F, ''Med heat, 1 second'', 1.1),
      (''MEDHEAT_100MS'', 0x24, ''Med heat, 0.1 second'', 0.11),
      (''LOWHEAT_1S'', 0x1E, ''Low heat, 1 second'', 1.1),
      (''LOWHEAT_100MS'', 0x15, ''Low heat, 0.1 second'', 0.11)]"

text \<open>\<open>class Mode(CV)\<close> after the call \<open>Mode.add_values(...)\<close>: it starts with no attributes of its own.\<close>

definition Mode :: cv where
  "Mode = add_values \<lparr>cv_attrs = Map.empty, cv_string = Map.empty, cv_delay = Map.empty\<rparr> mode_values"

text \<open>The nine command codes, as a set to state properties against.\<close>

definition mode_codes :: "int set" where
  "mode_codes = {0xFD, 0xF6, 0xE0, 0x39, 0x32, 0x2F, 0x24, 0x1E, 0x15}"

section \<open>Evaluation of the table\<close>

lemma Mode_string:
  "cv_string Mode =
     [0xFD \<mapsto> ''No heater, high precision'', 0xF6 \<mapsto> ''No heater, med precision'',
      0xE0 \<mapsto> ''No heater, low precision'', 0x39 \<mapsto> ''High heat, 1 second'',
      0x32 \<mapsto> ''High heat, 0.1 second'', 0x2F \<mapsto> ''Med heat, 1 second'',
      0x24 \<mapsto> ''Med heat, 0.1 second'', 0x1E \<mapsto> ''Low heat, 1 second'',
      0x15 \<mapsto> ''Low heat, 0.1 second'']"
  by (simp add: Mode_def add_values_def mode_values_def)

lemma Mode_delay:
  "cv_delay Mode =
     [0xFD \<mapsto> 0.01, 0xF6 \<mapsto> 0.005, 0xE0 \<mapsto> 0.002, 0x39 \<mapsto> 1.1, 0x32 \<mapsto> 0.11,
      0x2F \<mapsto> 1.1, 0x24 \<mapsto> 0.11, 0x1E \<mapsto> 1.1, 0x15 \<mapsto> 0.11]"
  by (simp add: Mode_def add_values_def mode_values_def)

lemma Mode_attrs:
  "cv_attrs Mode =
     [''NOHEAT_HIGHPRECISION'' \<mapsto> 0xFD, ''NOHEAT_MEDPRECISION'' \<mapsto> 0xF6,
      ''NOHEAT_LOWPRECISION'' \<mapsto> 0xE0, ''HIGHHEAT_1S'' \<mapsto> 0x39, ''HIGHHEAT_100MS'' \<mapsto> 0x32,
      ''MEDHEAT_1S'' \<mapsto> 0x2F, ''MEDHEAT_100MS'' \<mapsto> 0x24, ''LOWHEAT_1S'' \<mapsto> 0x1E,
      ''LOWHEAT_100MS'' \<mapsto> 0x15]"
  by (simp add: Mode_def add_values_def mode_values_def)

lemma dom_add_values_loop:
  "dom (cv_string (add_values_loop cls vs)) = dom (cv_string cls) \<union> set (map (fst \<circ> snd) vs)"
  "dom (cv_delay (add_values_loop cls vs)) = dom (cv_delay cls) \<union> set (map (fst \<circ> snd) vs)"
  by (induction cls vs rule: add_values_loop.induct) auto

lemma is_valid_Mode_cases:
  "is_valid Mode v \<longleftrightarrow> v = 0xFD \<or> v = 0xF6 \<or> v = 0xE0 \<or> v = 0x39 \<or> v = 0x32 \<or> v = 0x2F
     \<or> v = 0x24 \<or> v = 0x1E \<or> v = 0x15"
  by (simp add: is_valid_def Mode_string)

lemma Mode_delay_byte: "cv_delay Mode v \<noteq> None \<Longrightarrow> 0 \<le> v \<and> v < 256"
  by (auto simp: Mode_delay split: if_splits)

section \<open>Properties of the mode table\<close>

text \<open>
  C16. For every class and every list of tuples, \<open>add_values\<close> leaves \<open>cls.string\<close> and
  \<open>cls.delay\<close> with the same keys: a value that \<open>is_valid\<close> accepts always has a delay.
\<close>

theorem add_values_same_keys:
  "dom (cv_string (add_values cls vs)) = dom (cv_delay (add_values cls vs))"
  by (simp add: add_values_def dom_add_values_loop)

end
