(* ===== verification/CRC8.thy ===== *)
theory CRC8
  imports Prelude
begin

text \<open>
  The checksum of the response frames: \<open>SHT4x._crc8\<close> (SHT4X.py lines 152-163) as the
  Python code computes it, on an unbounded \<open>int\<close> accumulator that is never masked
  inside the loop, and the CRC-8 of the spec (section 4.2: polynomial 0x31, initial value
  0xFF, no reflection, no final XOR) on an 8-bit register. The main results: the two agree
  (the high bits the Python int accumulates never reach the low byte), that every error
  confined to one byte of a two-byte field changes the checksum, and that the field check
  detects every error flipping an odd number of bits (the register keeps the parity of
  the weight of what it reads).
\<close>

unbundle bit_operations_syntax

section \<open>The driver's checksum\<close>

text \<open>The inner loop \<open>for _ in range(8)\<close>, lines 158-162.\<close>

fun crc8_bits :: "nat \<Rightarrow> int \<Rightarrow> int" where
  "crc8_bits 0 crc = crc"
| "crc8_bits (Suc n) crc =
     crc8_bits n (if crc AND 0x80 \<noteq> 0 then push_bit 1 crc XOR 0x31 else push_bit 1 crc)"

text \<open>The outer loop \<open>for byte in buffer\<close>, lines 156-162.\<close>

fun crc8_loop :: "int \<Rightarrow> byte list \<Rightarrow> int" where
  "crc8_loop crc [] = crc"
| "crc8_loop crc (byte # buffer) = crc8_loop (crc8_bits 8 (crc XOR uint byte)) buffer"

text \<open>\<open>_crc8\<close>: start at 0xFF, run the loops, keep the bottom 8 bits.\<close>

definition crc8 :: "byte list \<Rightarrow> int" where
  "crc8 buffer = crc8_loop 0xFF buffer AND 0xFF"

section \<open>Reference: CRC-8 on an 8-bit register\<close>

definition crc8w_shift :: "byte \<Rightarrow> byte" where
  "crc8w_shift c = (if c AND 0x80 \<noteq> 0 then push_bit 1 c XOR 0x31 else push_bit 1 c)"

fun crc8w_bits :: "nat \<Rightarrow> byte \<Rightarrow> byte" where
  "crc8w_bits 0 c = c"
| "crc8w_bits (Suc n) c = crc8w_bits n (crc8w_shift c)"

fun crc8w_loop :: "byte \<Rightarrow> byte list \<Rightarrow> byte" where
  "crc8w_loop c [] = c"
| "crc8w_loop c (b # bs) = crc8w_loop (crc8w_bits 8 (c XOR b)) bs"

definition crc8_word :: "byte list \<Rightarrow> byte" where
  "crc8_word bs = crc8w_loop 0xFF bs"

text \<open>The number of set bits of a byte, to count the bits an error flips.\<close>

definition byte_weight :: "byte \<Rightarrow> nat" where
  "byte_weight w = (\<Sum>n<8. of_bool (bit w n))"

text \<open>
  An error pattern \<open>(e0, e1, e2)\<close> added to a field of two data bytes and its checksum
  byte passes the driver's check exactly when this holds.
\<close>

definition field_error_undetected :: "byte \<Rightarrow> byte \<Rightarrow> byte \<Rightarrow> bool" where
  "field_error_undetected e0 e1 e2 \<longleftrightarrow> crc8w_loop 0 [e0, e1] = e2"

section \<open>Evaluation\<close>

lemma crc8_bits_numeral [eval_simps]:
  "crc8_bits (numeral k) crc =
     crc8_bits (pred_numeral k)
       (if crc AND 0x80 \<noteq> 0 then push_bit 1 crc XOR 0x31 else push_bit 1 crc)"
  by (simp add: numeral_eq_Suc)

lemma crc8w_bits_numeral [eval_simps]:
  "crc8w_bits (numeral k) c = crc8w_bits (pred_numeral k) (crc8w_shift c)"
  by (simp add: numeral_eq_Suc)

section \<open>The Python accumulator refines the 8-bit register\<close>

lemma word_of_int_crc8_step:
  "(word_of_int (if c AND 0x80 \<noteq> 0 then push_bit 1 c XOR 0x31 else push_bit 1 c) :: byte)
     = crc8w_shift (word_of_int c)"
proof -
  have b: "bit (word_of_int c :: byte) 7 = bit c 7"
    by (simp add: bit_word_of_int_iff)
  show ?thesis
    by (simp add: crc8w_shift_def and_0x80_iff_bit int_and_0x80_iff_bit b of_int_xor_eq of_int_mult)
qed

lemma word_of_int_crc8_bits:
  "(word_of_int (crc8_bits n c) :: byte) = crc8w_bits n (word_of_int c)"
  by (induction n arbitrary: c) (simp_all add: word_of_int_crc8_step)

lemma word_of_int_crc8_loop:
  "(word_of_int (crc8_loop c bs) :: byte) = crc8w_loop (word_of_int c) bs"
proof (induction bs arbitrary: c)
  case Nil
  then show ?case by simp
next
  case (Cons b bs)
  have "(word_of_int (c XOR uint b) :: byte) = word_of_int c XOR b"
    by (simp add: of_int_xor_eq)
  with Cons.IH show ?case by (simp add: word_of_int_crc8_bits)
qed

lemma crc8_take_bit: "crc8 bs = uint (crc8w_loop 0xFF bs)"
proof -
  have "crc8 bs = uint (word_of_int (crc8_loop 0xFF bs) :: byte)"
    by (simp add: crc8_def int_and_0xFF_take_bit uint_of_int_take_bit)
  then show ?thesis by (simp add: word_of_int_crc8_loop)
qed

section \<open>The register is linear over GF(2)\<close>

text \<open>
  One shift step is a linear map on the 8-bit register: the feedback 0x31 is added exactly
  when the top bit is set, and the top bit of a sum is the sum of the top bits. A step maps
  only 0 to 0, because a shifted byte is even and 0x31 is odd. These two facts carry the
  error-detection theorem.
\<close>

lemma crc8w_shift_xor: "crc8w_shift (a XOR b) = crc8w_shift a XOR crc8w_shift b"
  by (auto simp: crc8w_shift_def and_0x80_iff_bit bit_xor_iff push_bit_xor ac_simps)

lemma crc8w_shift_zero [simp]: "crc8w_shift 0 = 0"
  by (simp add: crc8w_shift_def)

lemma crc8w_bits_xor: "crc8w_bits n (a XOR b) = crc8w_bits n a XOR crc8w_bits n b"
  by (induction n arbitrary: a b) (simp_all add: crc8w_shift_xor)

lemma crc8w_bits_zero [simp]: "crc8w_bits n 0 = 0"
  by (induction n) simp_all

lemma crc8w_shift_eq_0: "crc8w_shift x = 0 \<Longrightarrow> x = 0"
proof (cases "bit x 7")
  case True
  assume "crc8w_shift x = 0"
  with True have "push_bit 1 x XOR 0x31 = 0"
    by (simp add: crc8w_shift_def and_0x80_iff_bit)
  then have "bit (push_bit 1 x XOR 0x31) 0 = bit (0::byte) 0" by simp
  then show ?thesis by (simp add: bit_xor_iff bit_0 even_xor_iff)
next
  case False
  assume "crc8w_shift x = 0"
  with False have p: "push_bit 1 x = 0"
    by (simp add: crc8w_shift_def and_0x80_iff_bit)
  show ?thesis
  proof (rule bit_word_eqI)
    fix n assume "n < LENGTH(8)"
    then consider "n < 7" | "n = 7" by fastforce
    then show "bit x n = bit 0 n"
    proof cases
      case 1
      have "bit (push_bit 1 x) (Suc n) = bit x n"
        using 1 by (simp only: bit_push_bit_iff) simp
      moreover have "\<not> bit (push_bit 1 x) (Suc n)"
        by (simp only: p) simp
      ultimately show ?thesis by simp
    next
      case 2
      with False show ?thesis by simp
    qed
  qed
qed

lemma crc8w_shift_eq_0_iff: "crc8w_shift x = 0 \<longleftrightarrow> x = 0"
  using crc8w_shift_eq_0 by auto

lemma crc8w_bits_eq_0_iff [simp]: "crc8w_bits n x = 0 \<longleftrightarrow> x = 0"
  by (induction n arbitrary: x) (simp_all add: crc8w_shift_eq_0_iff)

lemma byte_xor_eq_self_iff [simp]: "((a :: byte) XOR d = a) \<longleftrightarrow> d = 0"
  by (auto simp: bit_eq_iff bit_xor_iff)

lemma crc8w_loop_append: "crc8w_loop c (xs @ ys) = crc8w_loop (crc8w_loop c xs) ys"
  by (induction xs arbitrary: c) simp_all

text \<open>An error pattern \<open>(e0, e1)\<close> added to a two-byte field adds a term that depends on the error alone.\<close>

lemma crc8w_loop_error_pair:
  "crc8w_loop c [b0 XOR e0, b1 XOR e1]
     = crc8w_loop c [b0, b1] XOR crc8w_bits 8 (crc8w_bits 8 e0 XOR e1)"
  by (simp add: crc8w_bits_xor ac_simps)

lemma crc8_eq_iff_word: "crc8 xs = crc8 ys \<longleftrightarrow> crc8w_loop 0xFF xs = crc8w_loop 0xFF ys"
  unfolding crc8_take_bit by (rule word_uint_eq_iff [symmetric])

lemma word_of_int_crc8: "(word_of_int (crc8 bs) :: byte) = crc8_word bs"
  by (simp add: crc8_take_bit crc8_word_def)

lemma uint_word_of_crc8 [simp]: "uint (word_of_int (crc8 bs) :: byte) = crc8 bs"
  by (simp add: crc8_take_bit)

text \<open>
  Every non-zero error confined to one byte of a two-byte field changes the checksum: the
  error adds \<open>L (L e0 XOR e1)\<close> to the register, \<open>L\<close> the eight shift steps, and
  \<open>L\<close> maps only 0 to 0.
\<close>

lemma crc8_byte_error:
  assumes "(e0 = 0 \<and> e1 \<noteq> 0) \<or> (e0 \<noteq> 0 \<and> e1 = 0)"
  shows "crc8 [b0 XOR e0, b1 XOR e1] \<noteq> crc8 [b0, b1]"
proof
  assume "crc8 [b0 XOR e0, b1 XOR e1] = crc8 [b0, b1]"
  then have "crc8w_bits 8 (crc8w_bits 8 e0 XOR e1) = 0"
    by (simp only: crc8_eq_iff_word crc8w_loop_error_pair) simp
  then have "crc8w_bits 8 e0 XOR e1 = 0"
    by simp
  then have "crc8w_bits 8 e0 = e1"
    by (auto simp: bit_eq_iff bit_xor_iff)
  with assms show False by auto
qed

section \<open>Parity\<close>

text \<open>
  The polynomial 0x31 has three set bits and its shift drops at most one, so each shift
  step keeps the parity of the register's weight; by linearity, the parity of the
  register after a buffer is that of the initial value plus the weight of the buffer.
\<close>

lemma of_bool_xor_sum:
  "of_bool (x \<noteq> y) + 2 * of_bool (x \<and> y) = (of_bool x + of_bool y :: nat)"
  by (cases x; cases y) simp_all

lemma byte_weight_xor:
  "byte_weight (a XOR b) + 2 * byte_weight (a AND b) = byte_weight a + byte_weight b"
proof -
  have "byte_weight (a XOR b) + 2 * byte_weight (a AND b)
      = (\<Sum>n<8. of_bool (bit a n \<noteq> bit b n) + 2 * of_bool (bit a n \<and> bit b n))"
    by (simp add: byte_weight_def bit_xor_iff bit_and_iff sum.distrib sum_distrib_left)
  also have "\<dots> = (\<Sum>n<8. of_bool (bit a n) + of_bool (bit b n))"
    by (simp only: of_bool_xor_sum)
  also have "\<dots> = byte_weight a + byte_weight b"
    by (simp add: byte_weight_def sum.distrib)
  finally show ?thesis .
qed

lemma even_byte_weight_xor:
  "even (byte_weight (a XOR b)) \<longleftrightarrow> (even (byte_weight a) \<longleftrightarrow> even (byte_weight b))"
  using byte_weight_xor [of a b] by presburger

lemma bit_push_bit_1_byte:
  "\<not> bit (push_bit 1 (c::byte)) 0"
  "n < 7 \<Longrightarrow> bit (push_bit 1 (c::byte)) (Suc n) = bit c n"
  by (simp_all only: bit_push_bit_iff) simp_all

lemma byte_weight_push_bit_1:
  "byte_weight (push_bit 1 c) + of_bool (bit c 7) = byte_weight c"
proof -
  have e: "(8::nat) = Suc 7" by simp
  have "byte_weight (push_bit 1 c) = (\<Sum>n<Suc 7. of_bool (bit (push_bit 1 c) n) :: nat)"
    by (simp only: byte_weight_def e)
  also have "\<dots> = of_bool (bit (push_bit 1 c) 0) + (\<Sum>n<7. of_bool (bit (push_bit 1 c) (Suc n)))"
    by (rule sum.lessThan_Suc_shift)
  also have "\<dots> = (\<Sum>n<7. of_bool (bit c n))"
  proof -
    have "(\<Sum>n<7. of_bool (bit (push_bit 1 c) (Suc n)) :: nat) = (\<Sum>n<7. of_bool (bit c n))"
      by (rule sum.cong [OF refl]) (simp only: lessThan_iff bit_push_bit_1_byte(2))
    then show ?thesis using bit_push_bit_1_byte(1) [of c] by simp
  qed
  finally have p: "byte_weight (push_bit 1 c) = (\<Sum>n<7. of_bool (bit c n))" .
  have "byte_weight c = (\<Sum>n<Suc 7. of_bool (bit c n) :: nat)"
    by (simp only: byte_weight_def e)
  also have "\<dots> = (\<Sum>n<7. of_bool (bit c n)) + of_bool (bit c 7)"
    by (rule sum.lessThan_Suc)
  finally show ?thesis using p by simp
qed

lemma byte_weight_0x31: "byte_weight 0x31 = 3"
  by (simp add: byte_weight_def numeral_eq_Suc lessThan_Suc)

lemma even_byte_weight_shift:
  "even (byte_weight (crc8w_shift c)) \<longleftrightarrow> even (byte_weight c)"
proof (cases "bit c 7")
  case True
  have w: "byte_weight (push_bit 1 c) + 1 = byte_weight c"
    using byte_weight_push_bit_1 [of c] True by simp
  have "crc8w_shift c = push_bit 1 c XOR 0x31"
    using True by (simp add: crc8w_shift_def and_0x80_iff_bit)
  then show ?thesis
    using even_byte_weight_xor [of "push_bit 1 c" "0x31"] w byte_weight_0x31 by presburger
next
  case False
  have w: "byte_weight (push_bit 1 c) = byte_weight c"
    using byte_weight_push_bit_1 [of c] False by simp
  have "crc8w_shift c = push_bit 1 c"
    using False by (simp add: crc8w_shift_def and_0x80_iff_bit)
  then show ?thesis using w by simp
qed

lemma even_byte_weight_bits:
  "even (byte_weight (crc8w_bits n c)) \<longleftrightarrow> even (byte_weight c)"
  by (induction n arbitrary: c) (simp_all add: even_byte_weight_shift)

lemma crc8w_loop_xor:
  "length xs = length es \<Longrightarrow>
   crc8w_loop (c XOR d) (map2 (XOR) xs es) = crc8w_loop c xs XOR crc8w_loop d es"
proof (induction xs es arbitrary: c d rule: list_induct2)
  case Nil
  then show ?case by simp
next
  case (Cons x xs e es)
  have "crc8w_bits 8 ((c XOR d) XOR (x XOR e)) = crc8w_bits 8 (c XOR x) XOR crc8w_bits 8 (d XOR e)"
    by (simp add: crc8w_bits_xor [symmetric] ac_simps)
  then show ?case using Cons.IH by simp
qed

lemma even_byte_weight_loop:
  "even (byte_weight (crc8w_loop d es)) \<longleftrightarrow> even (byte_weight d + sum_list (map byte_weight es))"
proof (induction es arbitrary: d)
  case Nil
  then show ?case by simp
next
  case (Cons e es)
  show ?case
    using Cons.IH [of "crc8w_bits 8 (d XOR e)"] even_byte_weight_bits [of 8 "d XOR e"]
      even_byte_weight_xor [of d e] by simp presburger
qed

lemma byte_weight_0 [simp]: "byte_weight 0 = 0"
  by (simp add: byte_weight_def)

section \<open>Errors in a field\<close>

text \<open>
  By linearity an error passes the check of a field exactly when the checksum error equals
  the register run from 0 over the data errors. A field with one corrupted byte is always
  caught, and so is one with two single-bit errors in different bytes: the images of a
  single bit under eight and sixteen shift steps (computed below) are never a single bit.
\<close>

lemma crc8_check_error_iff:
  assumes "length es = length bs"
  shows "uint (word_of_int (crc8 bs) XOR e) = crc8 (map2 (XOR) bs es) \<longleftrightarrow> e = crc8w_loop 0 es"
proof -
  have l: "crc8w_loop 0xFF (map2 (XOR) bs es) = crc8w_loop 0xFF bs XOR crc8w_loop 0 es"
    using crc8w_loop_xor [of bs es "0xFF" 0] assms by simp
  have "uint (word_of_int (crc8 bs) XOR e) = crc8 (map2 (XOR) bs es)
      \<longleftrightarrow> word_of_int (crc8 bs) XOR e = crc8w_loop 0xFF (map2 (XOR) bs es)"
    by (simp only: crc8_take_bit word_uint_eq_iff)
  also have "\<dots> \<longleftrightarrow> crc8w_loop 0xFF bs XOR e = crc8w_loop 0xFF bs XOR crc8w_loop 0 es"
    by (simp only: l word_of_int_crc8 crc8_word_def)
  finally show ?thesis by (simp only: byte_xor_left_cancel)
qed

lemma field_error_undetected_0 [simp]: "field_error_undetected 0 0 0"
  by (simp add: field_error_undetected_def)

lemma one_byte_error_undetected_false:
  "e \<noteq> 0 \<Longrightarrow> \<not> field_error_undetected e 0 0"
  "e \<noteq> 0 \<Longrightarrow> \<not> field_error_undetected 0 e 0"
  "e \<noteq> 0 \<Longrightarrow> \<not> field_error_undetected 0 0 e"
  by (auto simp: field_error_undetected_def)

lemma crc8w_bits_8_unit:
  "k < 8 \<Longrightarrow> crc8w_bits 8 (push_bit k 1) \<in> {0x31, 0x62, 0xC4, 0xB9, 0x43, 0x86, 0x3D, 0x7A}"
  by (drule nat_less_8_cases) (elim disjE; simp add: eval_simps crc8w_shift_def)

lemma crc8w_bits_16_unit:
  "k < 8 \<Longrightarrow> crc8w_bits 8 (crc8w_bits 8 (push_bit k 1)) \<in> {0xF4, 0xD9, 0x83, 0x37, 0x6E, 0xDC, 0x89, 0x23}"
  by (drule nat_less_8_cases) (elim disjE; simp add: eval_simps crc8w_shift_def)

lemma unit_pair_undetected_false:
  assumes "k < 8" and "l < 8"
  shows "\<not> field_error_undetected (push_bit k 1) (push_bit l 1) 0"
    and "\<not> field_error_undetected (push_bit k 1) 0 (push_bit l 1)"
    and "\<not> field_error_undetected 0 (push_bit k 1) (push_bit l 1)"
proof -
  note u = push_bit_one_byte_cases [OF assms(2)] crc8w_bits_8_unit [OF assms(1)]
    crc8w_bits_16_unit [OF assms(1)]
  have x: "crc8w_bits 8 (push_bit k 1) XOR push_bit l 1 \<noteq> 0"
  proof
    assume "crc8w_bits 8 (push_bit k 1) XOR push_bit l 1 = 0"
    then have "crc8w_bits 8 (push_bit k 1) = push_bit l 1"
      by (metis xor_self_eq byte_xor_left_cancel)
    then show False using u by auto
  qed
  show "\<not> field_error_undetected (push_bit k 1) (push_bit l 1) 0"
    using x by (simp add: field_error_undetected_def)
  show "\<not> field_error_undetected (push_bit k 1) 0 (push_bit l 1)"
    using u by (auto simp: field_error_undetected_def)
  show "\<not> field_error_undetected 0 (push_bit k 1) (push_bit l 1)"
    using u by (auto simp: field_error_undetected_def)
qed

lemma byte_weight_unit:
  assumes "k < 8"
  shows "byte_weight (push_bit k 1) = 1"
proof -
  have "(\<Sum>n<8. of_bool (bit (push_bit k (1::byte)) n) :: nat) = (\<Sum>n<8. of_bool (n = k))"
    using assms by (intro sum.cong) (auto simp: bit_exp_iff)
  also have "\<dots> = 1" using assms by simp
  finally show ?thesis by (simp add: byte_weight_def)
qed

text \<open>An error that flips an odd number of the field's bits passes no check.\<close>

lemma odd_weight_undetected_false:
  assumes "odd (byte_weight e0 + byte_weight e1 + byte_weight e2)"
  shows "\<not> field_error_undetected e0 e1 e2"
proof
  assume "field_error_undetected e0 e1 e2"
  then have "crc8w_loop 0 [e0, e1] = e2" by (simp add: field_error_undetected_def)
  then have "even (byte_weight e2) \<longleftrightarrow> even (byte_weight e0 + byte_weight e1)"
    using even_byte_weight_loop [of 0 "[e0, e1]"] by simp
  with assms show False by presburger
qed

section \<open>Properties of the checksum\<close>

text \<open>
  C4. The driver's \<open>_crc8\<close>, computed on an unbounded Python int and masked at the end, is
  the CRC-8 of the spec computed on an 8-bit register: the bits the Python accumulator
  carries above bit 7 never influence the result.
\<close>

theorem crc8_refines_crc8_word: "crc8 bs = uint (crc8_word bs)"
  by (simp add: crc8_word_def crc8_take_bit)

text \<open>
  C6. Two two-byte fields that differ in exactly one byte (in particular in a single bit)
  have different checksums, so the driver's comparison rejects any such corruption.
\<close>

theorem crc8_fields_differ_in_one_byte:
  assumes "(a0 = b0 \<and> a1 \<noteq> b1) \<or> (a0 \<noteq> b0 \<and> a1 = b1)"
  shows "crc8 [a0, a1] \<noteq> crc8 [b0, b1]"
proof -
  have "(b0 XOR a0 = 0 \<and> b1 XOR a1 \<noteq> 0) \<or> (b0 XOR a0 \<noteq> 0 \<and> b1 XOR a1 = 0)"
    using assms by (auto simp: bit_eq_iff bit_xor_iff)
  then have "crc8 [b0 XOR (b0 XOR a0), b1 XOR (b1 XOR a1)] \<noteq> crc8 [b0, b1]"
    by (rule crc8_byte_error)
  then show ?thesis by (simp add: ac_simps)
qed

theorem crc8_fields_differ_in_one_byte_witness:
  "((0xBE::byte) = 0xBE \<and> (0xEE::byte) \<noteq> 0xEF \<or> (0xBE::byte) \<noteq> 0xBE \<and> (0xEE::byte) = 0xEF)
   \<and> crc8 [0xBE, 0xEE] \<noteq> crc8 [0xBE, 0xEF]"
  using crc8_fields_differ_in_one_byte [of "0xBE" "0xBE" "0xEE" "0xEF"] by simp

text \<open>
  C20. The driver's check of a field, \<open>buf[crc] != _crc8(buf[data])\<close>, detects every
  error that flips an odd number of bits of the data bytes and the checksum byte together,
  whatever the length of the data: one or three flipped bits in a measurement field are
  always reported.
\<close>

theorem crc8_check_detects_odd_weight_error:
  assumes "length es = length bs" and "odd (sum_list (map byte_weight es) + byte_weight e)"
  shows "uint (word_of_int (crc8 bs) XOR e) \<noteq> crc8 (map2 (XOR) bs es)"
proof
  assume "uint (word_of_int (crc8 bs) XOR e) = crc8 (map2 (XOR) bs es)"
  then have "e = crc8w_loop 0 es"
    using crc8_check_error_iff [OF assms(1)] by simp
  then show False
    using even_byte_weight_loop [of 0 es] assms(2) by simp
qed

theorem crc8_check_detects_odd_weight_error_witness:
  "length [1, 0] = length [0xBE, 0xEF :: byte]
   \<and> odd (sum_list (map byte_weight [1, 0]) + byte_weight 0)
   \<and> uint (word_of_int (crc8 [0xBE, 0xEF]) XOR (0::byte)) \<noteq> crc8 (map2 (XOR) [0xBE, 0xEF] [1, 0])"
proof -
  have l: "length [1, 0] = length [0xBE, 0xEF :: byte]" by simp
  have h: "odd (sum_list (map byte_weight [1, 0]) + byte_weight 0)"
    by (simp add: byte_weight_def numeral_eq_Suc lessThan_Suc)
  show ?thesis
    using l h crc8_check_detects_odd_weight_error [OF l h] by blast
qed

end
