(* ===== verification/Transport.thy ===== *)
theory Transport
  imports Prelude
begin

text \<open>
  The bus the driver talks to: smbus2's \<open>SMBus.i2c_rdwr\<close> with \<open>i2c_msg.write\<close> and
  \<open>i2c_msg.read\<close> messages, and \<open>time.sleep\<close>. They are not code of the repository
  (the driver only calls them), so they are modelled from the spec (section 6) and from
  smbus2's documented contract: a transaction either fails with OSError or completes, and a
  read message is a buffer of exactly the requested length that the transaction fills.
  The world is a record: the log of completed transactions and sleeps, in order, and the
  device on the bus, a function from the log so far and the message to the bytes it
  answers (None: the transaction fails). An effectful operation of the driver is a
  function from the world to its result and the new world; \<open>io_bind\<close> sequences two of
  them and stops at the first exception, as Python does.
\<close>

section \<open>Messages, events and the world\<close>

datatype i2c_msg = I2cWrite int "byte list" | I2cRead int nat

datatype bus_event = Xfer i2c_msg "byte list" | Sleep real

record bus =
  bus_log :: "bus_event list"
  bus_device :: "bus_event list \<Rightarrow> i2c_msg \<Rightarrow> byte list option"

type_synonym 'a io = "bus \<Rightarrow> 'a result \<times> bus"

section \<open>Sequencing with exceptions\<close>

definition rbind :: "'a result \<Rightarrow> ('a \<Rightarrow> 'b result) \<Rightarrow> 'b result" where
  "rbind r f = (case r of Inl e \<Rightarrow> Inl e | Inr x \<Rightarrow> f x)"

definition io_return :: "'a \<Rightarrow> 'a io" where
  "io_return x b = (Inr x, b)"

definition io_lift :: "'a result \<Rightarrow> 'a io" where
  "io_lift r b = (r, b)"

definition io_bind :: "'a io \<Rightarrow> ('a \<Rightarrow> 'b io) \<Rightarrow> 'b io" where
  "io_bind m f b = (case m b of (Inl e, b') \<Rightarrow> (Inl e, b') | (Inr x, b') \<Rightarrow> f x b')"

definition io_map :: "('a \<Rightarrow> 'b) \<Rightarrow> 'a io \<Rightarrow> 'b io" where
  "io_map g m = io_bind m (\<lambda>x. io_return (g x))"

section \<open>The bus operations\<close>

text \<open>
  The buffer of a message after the transaction: a write keeps its bytes; a read message
  of length \<open>n\<close> is a zero-initialised buffer of \<open>n\<close> bytes into which the device's
  answer is copied.
\<close>

fun msg_buffer :: "i2c_msg \<Rightarrow> byte list \<Rightarrow> byte list" where
  "msg_buffer (I2cWrite addr buf) data = buf"
| "msg_buffer (I2cRead addr n) data = take n data @ replicate (n - length data) 0"

text \<open>\<open>bus.i2c_rdwr(msg)\<close> followed by \<open>list(msg)\<close>.\<close>

definition i2c_rdwr :: "i2c_msg \<Rightarrow> byte list io" where
  "i2c_rdwr msg b =
     (case bus_device b (bus_log b) msg of
        None \<Rightarrow> (Inl OSError, b)
      | Some data \<Rightarrow>
          (let buf = msg_buffer msg data
           in (Inr buf, b\<lparr>bus_log := bus_log b @ [Xfer msg buf]\<rparr>)))"

text \<open>
  The buffer of \<open>i2c_msg.write(address, buf)\<close>: smbus2 converts the list with
  \<open>bytes(buf)\<close>, which raises ValueError for an element outside \<open>range(0, 256)\<close>.
\<close>

definition py_bytes :: "int list \<Rightarrow> byte list result" where
  "py_bytes xs = (if list_all (\<lambda>x. 0 \<le> x \<and> x < 256) xs then Inr (map word_of_int xs) else Inl ValueError)"

text \<open>\<open>time.sleep(seconds)\<close>: the blocking delay, recorded in the log.\<close>

definition time_sleep :: "real \<Rightarrow> unit io" where
  "time_sleep seconds b = (Inr (), b\<lparr>bus_log := bus_log b @ [Sleep seconds]\<rparr>)"

section \<open>A bus for examples\<close>

text \<open>A device that acknowledges every transaction and sends no data.\<close>

definition accepting_bus :: bus where
  "accepting_bus = \<lparr>bus_log = [], bus_device = (\<lambda>_ _. Some [])\<rparr>"

text \<open>
  \<open>answering frame\<close>: a device that acknowledges every write and answers every read
  with \<open>frame\<close>.
\<close>

definition answering :: "byte list \<Rightarrow> bus_event list \<Rightarrow> i2c_msg \<Rightarrow> byte list option" where
  "answering frame events msg = (case msg of I2cWrite _ _ \<Rightarrow> Some [] | I2cRead _ _ \<Rightarrow> Some frame)"

section \<open>Frame conditions\<close>

text \<open>
  \<open>bus_ext b b'\<close>: \<open>b'\<close> is \<open>b\<close> after some operations: the same device, the log
  extended at its end. Every operation keeps it; the driver never forgets or reorders
  what already happened on the bus.
\<close>

definition bus_ext :: "bus \<Rightarrow> bus \<Rightarrow> bool" where
  "bus_ext b b' \<longleftrightarrow> bus_device b' = bus_device b \<and> (\<exists>es. bus_log b' = bus_log b @ es)"

definition io_keeps :: "'a io \<Rightarrow> bool" where
  "io_keeps m \<longleftrightarrow> (\<forall>b. bus_ext b (snd (m b)))"

text \<open>A device that fails every transaction.\<close>

definition refusing_bus :: bus where
  "refusing_bus = \<lparr>bus_log = [], bus_device = (\<lambda>_ _. None)\<rparr>"

section \<open>Unfolding rules\<close>

lemma rbind_simps [simp, io_simps]:
  "rbind (Inl e) f = Inl e"
  "rbind (Inr x) f = f x"
  by (simp_all add: rbind_def)

lemma io_bind_Inl [io_simps]: "m b = (Inl e, b') \<Longrightarrow> io_bind m f b = (Inl e, b')"
  by (simp add: io_bind_def)

lemma io_bind_Inr [io_simps]: "m b = (Inr x, b') \<Longrightarrow> io_bind m f b = f x b'"
  by (simp add: io_bind_def)

lemma io_return_lift [simp, io_simps]:
  "io_return x b = (Inr x, b)"
  "io_lift r b = (r, b)"
  by (simp_all add: io_return_def io_lift_def)

lemma time_sleep_run [simp, io_simps]:
  "time_sleep d b = (Inr (), b\<lparr>bus_log := bus_log b @ [Sleep d]\<rparr>)"
  by (simp add: time_sleep_def)

lemma i2c_rdwr_fail [io_simps]:
  "bus_device b (bus_log b) msg = None \<Longrightarrow> i2c_rdwr msg b = (Inl OSError, b)"
  by (simp add: i2c_rdwr_def Let_def)

lemma i2c_rdwr_ok [io_simps]:
  "bus_device b (bus_log b) msg = Some data \<Longrightarrow>
   i2c_rdwr msg b = (Inr (msg_buffer msg data), b\<lparr>bus_log := bus_log b @ [Xfer msg (msg_buffer msg data)]\<rparr>)"
  by (simp add: i2c_rdwr_def Let_def)

lemma length_msg_buffer_read [simp]: "length (msg_buffer (I2cRead a n) data) = n"
  by simp

lemma msg_buffer_read_exact [simp]: "length data = n \<Longrightarrow> msg_buffer (I2cRead a n) data = data"
  by simp

section \<open>Frame lemmas\<close>

lemma bus_ext_refl [simp, intro]: "bus_ext b b"
  by (simp add: bus_ext_def)

lemma bus_ext_trans [trans]: "bus_ext a b \<Longrightarrow> bus_ext b c \<Longrightarrow> bus_ext a c"
  by (auto simp: bus_ext_def)

lemma io_keeps_return [intro]: "io_keeps (io_return x)" "io_keeps (io_lift r)"
  by (simp_all add: io_keeps_def)

lemma io_keeps_sleep [intro]: "io_keeps (time_sleep d)"
  by (simp add: io_keeps_def bus_ext_def)

lemma io_keeps_rdwr [intro]: "io_keeps (i2c_rdwr msg)"
  by (auto simp: io_keeps_def bus_ext_def i2c_rdwr_def Let_def split: option.split)

lemma io_keeps_bind [intro]:
  assumes "io_keeps m" and "\<And>x. io_keeps (f x)"
  shows "io_keeps (io_bind m f)"
  unfolding io_keeps_def
proof
  fix b
  show "bus_ext b (snd (io_bind m f b))"
  proof (cases "m b")
    case (Pair r b')
    have e: "bus_ext b b'" using assms(1) Pair unfolding io_keeps_def by (metis snd_conv)
    show ?thesis
    proof (cases r)
      case (Inl e)
      with Pair e show ?thesis by (simp add: io_bind_def)
    next
      case (Inr x)
      have "bus_ext b' (snd (f x b'))" using assms(2) unfolding io_keeps_def by blast
      with Pair Inr e show ?thesis by (simp add: io_bind_def bus_ext_trans)
    qed
  qed
qed

lemma io_keeps_map [intro]: "io_keeps m \<Longrightarrow> io_keeps (io_map g m)"
  by (auto simp: io_map_def)

end
