(* ===== verification/Frame.thy ===== *)
theory Frame
  imports CRC8 Transport
begin

text \<open>
  The pure part of the two reads: what \<open>serial_number\<close> (SHT4X.py lines 72-83) and
  \<open>measurements\<close> (lines 124-148) do with the six bytes they read. A response is two
  two-byte fields, each followed by its checksum; a mismatch raises RuntimeError. The
  serial number is the four data bytes read big-endian; a measurement is the two fields read
  as big-endian unsigned 16-bit ints and converted to degrees Celsius and percent relative
  humidity. Python floats are modelled as reals: the formulas are exact here, IEEE rounding
  is not modelled. Python's \<open>min\<close> and \<open>max\<close> return one of their arguments, an int or a
  float, so the clamped humidity is a value of \<open>pynum\<close>, which keeps that distinction.
  The last part models bits flipped in transit and proves that the checks reject a frame
  whose fields saw an odd number of flips, and any frame with one to three flipped bits.
\<close>

unbundle bit_operations_syntax

section \<open>Splitting and checking a response\<close>

text \<open>
  Lines 72-81 (and 124-135, the same code): slice out the two fields, index the two
  checksum bytes, compare each with \<open>_crc8\<close> of its field, in this order.
\<close>

definition split_response :: "byte list \<Rightarrow> (byte list \<times> byte list) result" where
  "split_response result =
     (let data1 = py_slice result 0 2 in
      rbind (py_index result 2) (\<lambda>crc1.
      let data2 = py_slice result 3 5 in
      rbind (py_index result 5) (\<lambda>crc2.
      if uint crc1 \<noteq> crc8 data1 \<or> uint crc2 \<noteq> crc8 data2 then Inl RuntimeError
      else Inr (data1, data2))))"

section \<open>The serial number\<close>

text \<open>Line 83: \<open>(ser1[0] << 24) + (ser1[1] << 16) + (ser2[0] << 8) + ser2[1]\<close>.\<close>

definition assemble_serial :: "byte list \<Rightarrow> byte list \<Rightarrow> int result" where
  "assemble_serial ser1 ser2 =
     rbind (py_index ser1 0) (\<lambda>a. rbind (py_index ser1 1) (\<lambda>b.
     rbind (py_index ser2 0) (\<lambda>c. rbind (py_index ser2 1) (\<lambda>d.
     Inr (push_bit 24 (uint a) + push_bit 16 (uint b) + push_bit 8 (uint c) + uint d)))))"

section \<open>Decoding a measurement\<close>

text \<open>\<open>struct.unpack_from(">H", buf)[0]\<close>: the first two bytes, big-endian, unsigned.\<close>

definition unpack_be16 :: "byte list \<Rightarrow> int result" where
  "unpack_be16 buf =
     (case buf of a # b # _ \<Rightarrow> Inr (uint a * 256 + uint b) | _ \<Rightarrow> Inl StructError)"

text \<open>A Python number: an int or a float (a real here). Comparison is by value, as in Python.\<close>

datatype pynum = PyInt int | PyFloat real

fun py_val :: "pynum \<Rightarrow> real" where
  "py_val (PyInt i) = real_of_int i"
| "py_val (PyFloat r) = r"

text \<open>
  The builtins \<open>min(a, b)\<close> and \<open>max(a, b)\<close> keep the first argument unless the second
  is strictly smaller (greater).
\<close>

definition py_min :: "pynum \<Rightarrow> pynum \<Rightarrow> pynum" where
  "py_min a b = (if py_val b < py_val a then b else a)"

definition py_max :: "pynum \<Rightarrow> pynum \<Rightarrow> pynum" where
  "py_max a b = (if py_val a < py_val b then b else a)"

text \<open>Line 141: \<open>-45.0 + 175.0 * temperature / 65535.0\<close>.\<close>

definition convert_temperature :: "int \<Rightarrow> real" where
  "convert_temperature t_raw = -45 + 175 * real_of_int t_raw / 65535"

text \<open>Lines 145-146: the linear formula, then \<open>max(min(humidity, 100), 0)\<close>.\<close>

definition convert_humidity :: "int \<Rightarrow> pynum" where
  "convert_humidity h_raw =
     (let humidity = -6 + 125 * real_of_int h_raw / 65535
      in py_max (py_min (PyFloat humidity) (PyInt 100)) (PyInt 0))"

text \<open>Lines 140-148: unpack both fields and convert them.\<close>

definition decode_measurement :: "byte list \<Rightarrow> byte list \<Rightarrow> (real \<times> pynum) result" where
  "decode_measurement temp_data humidity_data =
     rbind (unpack_be16 temp_data) (\<lambda>t_raw.
     rbind (unpack_be16 humidity_data) (\<lambda>h_raw.
     Inr (convert_temperature t_raw, convert_humidity h_raw)))"

section \<open>The frame a correct sensor sends\<close>

text \<open>
  The reference encoder of a response (spec section 6): two 16-bit values, each as its high
  and low byte followed by the checksum of the two.
\<close>

definition be_bytes :: "16 word \<Rightarrow> byte list" where
  "be_bytes w = [ucast (drop_bit 8 w), ucast w]"

definition field_bytes :: "16 word \<Rightarrow> byte list" where
  "field_bytes w = be_bytes w @ [word_of_int (crc8 (be_bytes w))]"

definition response_frame :: "16 word \<Rightarrow> 16 word \<Rightarrow> byte list" where
  "response_frame w1 w2 = field_bytes w1 @ field_bytes w2"

section \<open>Corruption in transit\<close>

text \<open>
  \<open>flip_frame_bit i\<close> flips bit \<open>i mod 8\<close> of byte \<open>i div 8\<close> of a frame: one bit
  corrupted on the wire. \<open>bit_error i\<close> is the same corruption as an error pattern, byte
  by byte.
\<close>

definition flip_frame_bit :: "nat \<Rightarrow> byte list \<Rightarrow> byte list" where
  "flip_frame_bit i frame = frame[i div 8 := flip_bit (i mod 8) (frame ! (i div 8))]"

definition bit_error :: "nat \<Rightarrow> nat \<Rightarrow> byte" where
  "bit_error i p = (if p = i div 8 then push_bit (i mod 8) 1 else 0)"

text \<open>Several bits flipped one after the other, and the error pattern they add up to.\<close>

fun flip_frame_bits :: "nat list \<Rightarrow> byte list \<Rightarrow> byte list" where
  "flip_frame_bits [] frame = frame"
| "flip_frame_bits (i # is) frame = flip_frame_bit i (flip_frame_bits is frame)"

fun bits_error :: "nat list \<Rightarrow> nat \<Rightarrow> byte" where
  "bits_error [] p = 0"
| "bits_error (i # is) p = bit_error i p XOR bits_error is p"

section \<open>Evaluation and round trips\<close>

lemma uint_be_bytes:
  "uint (ucast (drop_bit 8 w) :: byte) * 256 + uint (ucast (w :: 16 word) :: byte) = uint w"
proof -
  have u: "take_bit 16 (uint w) = uint w"
    using uint_lt2p [of w] by (simp add: take_bit_int_eq_self_iff)
  have h: "uint (ucast (drop_bit 8 w) :: byte) = drop_bit 8 (uint w)"
    by (simp add: unsigned_ucast_eq unsigned_drop_bit_eq take_bit_drop_bit u)
  have l: "uint (ucast w :: byte) = take_bit 8 (uint w)"
    by (simp add: unsigned_ucast_eq)
  show ?thesis
    using bits_ident [of 8 "uint w"] by (simp add: h l push_bit_eq_mult)
qed

lemma split_response_6 [frame_simps]:
  "split_response [a, b, c, d, e, f] =
     (if uint c \<noteq> crc8 [a, b] \<or> uint f \<noteq> crc8 [d, e] then Inl RuntimeError
      else Inr ([a, b], [d, e]))"
  by (simp add: split_response_def py_slice_def)

lemma split_response_short:
  "length r < 6 \<Longrightarrow> split_response r = Inl IndexError"
  by (auto simp: split_response_def py_index_def Let_def)

lemma length_be_bytes [simp]: "length (be_bytes w) = 2"
  by (simp add: be_bytes_def)

lemma split_response_frame [frame_simps]:
  "split_response (response_frame w1 w2) = Inr (be_bytes w1, be_bytes w2)"
  by (simp add: response_frame_def field_bytes_def be_bytes_def split_response_6)

lemma unpack_be16_be_bytes [frame_simps]: "unpack_be16 (be_bytes w) = Inr (uint w)"
  by (simp add: unpack_be16_def be_bytes_def uint_be_bytes)

lemma unpack_be16_range: "unpack_be16 bs = Inr x \<Longrightarrow> 0 \<le> x \<and> x \<le> 65535"
proof -
  assume u: "unpack_be16 bs = Inr x"
  then obtain a b rest where bs: "bs = a # b # rest"
    by (auto simp: unpack_be16_def split: list.splits)
  have "uint a \<le> 255" "uint b \<le> 255"
    using uint_lt2p [of a] uint_lt2p [of b] by simp_all
  moreover have "0 \<le> uint a" "0 \<le> uint b" by simp_all
  moreover have "x = uint a * 256 + uint b" using u bs by (simp add: unpack_be16_def)
  ultimately show ?thesis by linarith
qed

lemma assemble_serial_pairs [frame_simps]:
  "assemble_serial [a, b] [c, d] =
     Inr (push_bit 24 (uint a) + push_bit 16 (uint b) + push_bit 8 (uint c) + uint d)"
  by (simp add: assemble_serial_def)

lemma serial_bytes_add_or:
  "push_bit 24 (uint (a::byte)) + push_bit 16 (uint (b::byte)) + push_bit 8 (uint (c::byte)) + uint (d::byte)
   = ((push_bit 24 (uint a) OR push_bit 16 (uint b)) OR push_bit 8 (uint c)) OR uint d"
proof -
  have ab: "push_bit 24 (uint a) + push_bit 16 (uint b) = push_bit 24 (uint a) OR push_bit 16 (uint b)"
    by (rule disjunctive_add) (auto simp: bit_push_bit_iff bit_uint_iff)
  have abc: "(push_bit 24 (uint a) OR push_bit 16 (uint b)) + push_bit 8 (uint c)
      = (push_bit 24 (uint a) OR push_bit 16 (uint b)) OR push_bit 8 (uint c)"
    by (rule disjunctive_add) (auto simp: bit_push_bit_iff bit_uint_iff bit_or_iff)
  have abcd: "((push_bit 24 (uint a) OR push_bit 16 (uint b)) OR push_bit 8 (uint c)) + uint d
      = ((push_bit 24 (uint a) OR push_bit 16 (uint b)) OR push_bit 8 (uint c)) OR uint d"
    by (rule disjunctive_add) (auto simp: bit_push_bit_iff bit_uint_iff bit_or_iff)
  show ?thesis by (simp only: ab abc abcd)
qed

lemma convert_humidity_range: "0 \<le> py_val (convert_humidity h) \<and> py_val (convert_humidity h) \<le> 100"
  by (simp add: convert_humidity_def py_min_def py_max_def Let_def)

lemma convert_temperature_range:
  "0 \<le> t \<Longrightarrow> t \<le> 65535 \<Longrightarrow> -45 \<le> convert_temperature t \<and> convert_temperature t \<le> 130"
  by (simp add: convert_temperature_def)

section \<open>Corrupted frames are rejected\<close>

lemma response_frame_list:
  "response_frame t h =
     [ucast (drop_bit 8 t), ucast t, word_of_int (crc8 (be_bytes t)),
      ucast (drop_bit 8 h), ucast h, word_of_int (crc8 (be_bytes h))]"
  by (simp add: response_frame_def field_bytes_def be_bytes_def)

lemma length_response_frame [simp]: "length (response_frame t h) = 6"
  by (simp add: response_frame_list)

lemma length_flip_frame_bit [simp]: "length (flip_frame_bit i frame) = length frame"
  by (simp add: flip_frame_bit_def)

lemma flip_frame_bit_xor:
  assumes "length F = 6" and "i < 48"
  shows "flip_frame_bit i F = map2 (XOR) F (map (bit_error i) [0..<6])"
  using assms
  by (intro nth_equalityI) (auto simp: flip_frame_bit_def bit_error_def nth_list_update flip_bit_eq_xor)

lemma map2_xor_assoc:
  assumes "length A = length B" and "length B = length C"
  shows "map2 (XOR) (map2 (XOR) A B) C = map2 (XOR) A (map2 (XOR) (B :: byte list) C)"
  using assms by (intro nth_equalityI) (simp_all add: nth_zip xor.assoc)

lemma map_bit_error_6:
  "map (bit_error i) [0..<6] = [bit_error i 0, bit_error i 1, bit_error i 2, bit_error i 3, bit_error i 4, bit_error i 5]"
  by (simp add: upt_rec numeral_eq_Suc)

lemma split_response_error:
  assumes "\<not> (field_error_undetected e0 e1 e2 \<and> field_error_undetected e3 e4 e5)"
  shows "split_response (map2 (XOR) (response_frame t h) [e0, e1, e2, e3, e4, e5]) = Inl RuntimeError"
  using assms crc8_check_error_iff [of "[e0, e1]" "be_bytes t" e2] crc8_check_error_iff [of "[e3, e4]" "be_bytes h" e5]
  by (auto simp: response_frame_list split_response_6 be_bytes_def field_error_undetected_def)

lemma two_bit_errors_undetected_false:
  assumes "i < 48" and "j < 48" and "i \<noteq> j"
  shows "\<not> (field_error_undetected (bit_error i 0 XOR bit_error j 0) (bit_error i 1 XOR bit_error j 1)
              (bit_error i 2 XOR bit_error j 2)
           \<and> field_error_undetected (bit_error i 3 XOR bit_error j 3) (bit_error i 4 XOR bit_error j 4)
              (bit_error i 5 XOR bit_error j 5))"
proof -
  define k l where "k = i mod 8" and "l = j mod 8"
  have k: "k < 8" and l: "l < 8" by (simp_all add: k_def l_def)
  have kl: "i div 8 = j div 8 \<Longrightarrow> k \<noteq> l"
    using assms(3) unfolding k_def l_def by (metis div_mod_decomp)
  note facts = unit_pair_undetected_false [OF k l] unit_pair_undetected_false [OF l k]
    one_byte_error_undetected_false [OF push_bit_one_byte_neq_0 [OF k]]
    one_byte_error_undetected_false [OF push_bit_one_byte_neq_0 [OF l]]
    one_byte_error_undetected_false [OF push_bit_one_byte_xor_neq_0 [OF k]]
  note facts' = facts [unfolded push_bit_of_1]
  have p: "i div 8 < 6" and q: "j div 8 < 6" using assms(1,2) by simp_all
  from nat_less_6_cases [OF p] nat_less_6_cases [OF q] kl show ?thesis
    unfolding bit_error_def k_def [symmetric] l_def [symmetric]
    by (elim disjE) (simp_all add: facts')
qed

lemma split_two_flipped_frame:
  assumes "i < 48" and "j < 48" and "i \<noteq> j"
  shows "split_response (flip_frame_bit i (flip_frame_bit j (response_frame t h))) = Inl RuntimeError"
proof -
  have "flip_frame_bit i (flip_frame_bit j (response_frame t h))
      = map2 (XOR) (response_frame t h) (map2 (XOR) (map (bit_error j) [0..<6]) (map (bit_error i) [0..<6]))"
    using assms by (simp add: flip_frame_bit_xor map2_xor_assoc)
  also have "\<dots> = map2 (XOR) (response_frame t h)
      [bit_error i 0 XOR bit_error j 0, bit_error i 1 XOR bit_error j 1, bit_error i 2 XOR bit_error j 2,
       bit_error i 3 XOR bit_error j 3, bit_error i 4 XOR bit_error j 4, bit_error i 5 XOR bit_error j 5]"
    by (simp only: map_bit_error_6) (simp add: xor.commute)
  finally show ?thesis
    using split_response_error two_bit_errors_undetected_false [OF assms] by simp
qed

lemma length_flip_frame_bits [simp]: "length (flip_frame_bits is F) = length F"
  by (induction "is") simp_all

lemma odd_sum3:
  "even (w0::nat) = even c0 \<Longrightarrow> even w1 = even c1 \<Longrightarrow> even w2 = even c2 \<Longrightarrow>
   c0 + c1 + c2 = (n::nat) \<Longrightarrow> odd n \<Longrightarrow> odd (w0 + w1 + w2)"
  by presburger

lemma flip_frame_bits_xor:
  assumes "length F = 6" and "list_all (\<lambda>i. i < 48) is"
  shows "flip_frame_bits is F = map2 (XOR) F (map (bits_error is) [0..<6])"
  using assms(2)
proof (induction "is")
  case Nil
  show ?case using assms(1) by (auto intro!: nth_equalityI simp: nth_zip)
next
  case (Cons i "is")
  have l: "length (flip_frame_bits is F) = 6"
    using assms(1) by simp
  have "flip_frame_bits (i # is) F
      = map2 (XOR) (map2 (XOR) F (map (bits_error is) [0..<6])) (map (bit_error i) [0..<6])"
    using Cons l by (simp add: flip_frame_bit_xor)
  also have "\<dots> = map2 (XOR) F (map (bits_error (i # is)) [0..<6])"
    using assms(1) by (intro nth_equalityI) (simp_all add: nth_zip ac_simps)
  finally show ?case .
qed

lemma even_bits_error:
  "list_all (\<lambda>i. i < 48) is \<Longrightarrow>
   even (byte_weight (bits_error is p)) \<longleftrightarrow> even (length (filter (\<lambda>i. i div 8 = p) is))"
proof (induction "is")
  case Nil
  then show ?case by simp
next
  case (Cons i "is")
  have "even (byte_weight (bit_error i p)) \<longleftrightarrow> p \<noteq> i div 8"
    by (simp add: bit_error_def byte_weight_unit [unfolded push_bit_of_1])
  with Cons show ?case by (simp add: even_byte_weight_xor)
qed

lemma count_field_1:
  "length (filter (\<lambda>i. i div 8 = 0) is) + length (filter (\<lambda>i. i div 8 = 1) is)
   + length (filter (\<lambda>i. i div 8 = 2) is) = length (filter (\<lambda>i. i < 24) (is :: nat list))"
  by (induction "is") auto

lemma count_field_2:
  "list_all (\<lambda>i. i < 48) (is :: nat list) \<Longrightarrow>
   length (filter (\<lambda>i. i div 8 = 3) is) + length (filter (\<lambda>i. i div 8 = 4) is)
   + length (filter (\<lambda>i. i div 8 = 5) is) = length (filter (\<lambda>i. 24 \<le> i) is)"
  by (induction "is") auto

lemma split_odd_flips_frame:
  assumes "list_all (\<lambda>i. i < 48) is"
    and "odd (length (filter (\<lambda>i. i < 24) is)) \<or> odd (length (filter (\<lambda>i. 24 \<le> i) is))"
  shows "split_response (flip_frame_bits is (response_frame t h)) = Inl RuntimeError"
proof -
  let ?e = "bits_error is"
  have "odd (byte_weight (?e 0) + byte_weight (?e 1) + byte_weight (?e 2))
      \<or> odd (byte_weight (?e 3) + byte_weight (?e 4) + byte_weight (?e 5))"
    using assms(2) odd_sum3 [OF even_bits_error [OF assms(1), of 0] even_bits_error [OF assms(1), of 1]
        even_bits_error [OF assms(1), of 2] count_field_1 [of "is"]]
      odd_sum3 [OF even_bits_error [OF assms(1), of 3] even_bits_error [OF assms(1), of 4]
        even_bits_error [OF assms(1), of 5] count_field_2 [OF assms(1)]]
    by blast
  then have "\<not> (field_error_undetected (?e 0) (?e 1) (?e 2) \<and> field_error_undetected (?e 3) (?e 4) (?e 5))"
    using odd_weight_undetected_false by blast
  then show ?thesis
    using assms(1) split_response_error
    by (simp add: flip_frame_bits_xor upt_rec numeral_eq_Suc)
qed

lemma split_few_flips_frame:
  assumes "list_all (\<lambda>i. i < 48) is" and "distinct is" and "1 \<le> length is" and "length is \<le> 3"
  shows "split_response (flip_frame_bits is (response_frame t h)) = Inl RuntimeError"
proof (cases "length is = 2")
  case True
  then obtain i j where ij: "is = [i, j]" by (auto simp: numeral_eq_Suc length_Suc_conv)
  then show ?thesis using assms(1,2) split_two_flipped_frame [of i j t h] by simp
next
  case False
  then have "odd (length is)" using assms(3,4) by presburger
  moreover have "length (filter (\<lambda>i. i < 24) is) + length (filter (\<lambda>i. \<not> i < 24) is) = length is"
    by (rule sum_length_filter_compl)
  moreover have "\<And>a b n :: nat. a + b = n \<Longrightarrow> odd n \<Longrightarrow> odd a \<or> odd b" by presburger
  ultimately have "odd (length (filter (\<lambda>i. i < 24) is)) \<or> odd (length (filter (\<lambda>i. 24 \<le> i) is))"
    by (metis (mono_tags, lifting) filter_cong not_less)
  then show ?thesis by (rule split_odd_flips_frame [OF assms(1)])
qed

end
