(* ===== verification/Device.thy ===== *)
theory Device
  imports Mode Frame "HOL-Library.Sublist"
begin

text \<open>
  The driver class \<open>SHT4x\<close> (SHT4X.py lines 7-9 and 55-163). Its state is the record
  \<open>sht4x\<close>: the device address and the current mode \<open>_mode\<close>; the bus handle
  \<open>self.bus\<close> is the world of theory Transport, passed to and returned by every method
  that performs I/O. Each method is one definition, in the source's order, its statements
  sequenced by \<open>io_bind\<close> so that an exception stops the method where Python would. The
  properties (\<open>serial_number\<close>, \<open>mode\<close>, \<open>relative_humidity\<close>, \<open>temperature\<close>,
  \<open>measurements\<close>) are functions of the object like the methods. \<open>sht4x_call\<close> runs any
  one method on an object; \<open>sht4x_reachable\<close> holds of every object and bus that a
  constructor call followed by any sequence of method calls can produce.
\<close>

unbundle bit_operations_syntax

section \<open>Constants, lines 7-9\<close>

definition SHT4X_DEFAULT_ADDR :: int where
  "SHT4X_DEFAULT_ADDR = 0x44"

definition SHT4X_READSERIAL :: int where
  "SHT4X_READSERIAL = 0x89"

definition SHT4X_SOFTRESET :: int where
  "SHT4X_SOFTRESET = 0x94"

section \<open>The object\<close>

record sht4x =
  sht_address :: int
  sht_mode :: int

section \<open>Methods\<close>

text \<open>
  \<open>reset\<close>, lines 88-92: write the soft-reset command, wait 1 ms. Of \<open>self\<close> it reads
  only \<open>self.address\<close>, which is its argument here.
\<close>

definition reset :: "int \<Rightarrow> unit io" where
  "reset address =
     io_bind (i2c_rdwr (I2cWrite address [word_of_int SHT4X_SOFTRESET])) (\<lambda>_.
     time_sleep 0.001)"

text \<open>
  \<open>__init__\<close>, lines 57-61, on a bus already opened (\<open>SMBus(bus)\<close> is not modelled):
  store the address, reset the sensor, then set \<open>_mode\<close> to
  \<open>Mode.NOHEAT_HIGHPRECISION\<close>. An exception of \<open>reset\<close> aborts the constructor.
\<close>

definition sht4x_init :: "int \<Rightarrow> sht4x io" where
  "sht4x_init sht4xAddress =
     io_bind (reset sht4xAddress) (\<lambda>_.
     io_lift (case cv_attrs Mode ''NOHEAT_HIGHPRECISION'' of
                None \<Rightarrow> Inl AttributeError
              | Some m \<Rightarrow> Inr \<lparr>sht_address = sht4xAddress, sht_mode = m\<rparr>))"

text \<open>
  \<open>serial_number\<close>, lines 64-84: write the read-serial command, wait 10 ms, read six
  bytes, check both checksums, assemble the four data bytes.
\<close>

definition serial_number :: "sht4x \<Rightarrow> int io" where
  "serial_number self =
     io_bind (i2c_rdwr (I2cWrite (sht_address self) [word_of_int SHT4X_READSERIAL])) (\<lambda>_.
     io_bind (time_sleep 0.01) (\<lambda>_.
     io_bind (i2c_rdwr (I2cRead (sht_address self) 6)) (\<lambda>result.
     io_lift (rbind (split_response result) (\<lambda>(ser1, ser2). assemble_serial ser1 ser2)))))"

text \<open>The \<open>mode\<close> getter, lines 94-97.\<close>

definition get_mode :: "sht4x \<Rightarrow> int" where
  "get_mode self = sht_mode self"

text \<open>The \<open>mode\<close> setter, lines 99-104: AttributeError unless \<open>Mode.is_valid\<close>.\<close>

definition set_mode :: "sht4x \<Rightarrow> int \<Rightarrow> sht4x result" where
  "set_mode self new_mode =
     (if \<not> is_valid Mode new_mode then Inl AttributeError
      else Inr (self\<lparr>sht_mode := new_mode\<rparr>))"

text \<open>
  \<open>measurements\<close>, lines 116-148: build the write message of the mode (ValueError if
  \<open>_mode\<close> is not a byte), write it, look up the mode's delay and wait that long, read six
  bytes, check both checksums, decode.
\<close>

definition measurements :: "sht4x \<Rightarrow> (real \<times> pynum) io" where
  "measurements self =
     io_bind (io_lift (py_bytes [sht_mode self])) (\<lambda>buf.
     io_bind (i2c_rdwr (I2cWrite (sht_address self) buf)) (\<lambda>_.
     io_bind (io_lift (py_dict_get (cv_delay Mode) (sht_mode self))) (\<lambda>delay.
     io_bind (time_sleep delay) (\<lambda>_.
     io_bind (i2c_rdwr (I2cRead (sht_address self) 6)) (\<lambda>result.
     io_lift (rbind (split_response result) (\<lambda>(temp_data, humidity_data).
       decode_measurement temp_data humidity_data)))))))"

text \<open>\<open>relative_humidity\<close>, lines 106-109: a full measurement, second component.\<close>

definition relative_humidity :: "sht4x \<Rightarrow> pynum io" where
  "relative_humidity self = io_map snd (measurements self)"

text \<open>\<open>temperature\<close>, lines 111-114: a full measurement, first component.\<close>

definition temperature :: "sht4x \<Rightarrow> real io" where
  "temperature self = io_map fst (measurements self)"

section \<open>Method calls on an object\<close>

datatype sht4x_op =
    OpReset | OpSerialNumber | OpGetMode | OpSetMode int
  | OpMeasurements | OpTemperature | OpRelativeHumidity

datatype sht4x_value = VNone | VInt int | VMeasurement real pynum | VReal real | VNum pynum

text \<open>A method that does not assign to \<open>self\<close>: the object is unchanged, whatever it raises.\<close>

definition keep_self :: "sht4x \<Rightarrow> sht4x_value io \<Rightarrow> bus \<Rightarrow> (sht4x_value result \<times> sht4x) \<times> bus" where
  "keep_self self m b = (case m b of (r, b') \<Rightarrow> ((r, self), b'))"

fun sht4x_call :: "sht4x_op \<Rightarrow> sht4x \<Rightarrow> bus \<Rightarrow> (sht4x_value result \<times> sht4x) \<times> bus" where
  "sht4x_call OpReset self = keep_self self (io_map (\<lambda>_. VNone) (reset (sht_address self)))"
| "sht4x_call OpSerialNumber self = keep_self self (io_map VInt (serial_number self))"
| "sht4x_call OpGetMode self = keep_self self (io_return (VInt (get_mode self)))"
| "sht4x_call (OpSetMode v) self =
     (\<lambda>b. case set_mode self v of
            Inl e \<Rightarrow> ((Inl e, self), b)
          | Inr self' \<Rightarrow> ((Inr VNone, self'), b))"
| "sht4x_call OpMeasurements self =
     keep_self self (io_map (\<lambda>(t, h). VMeasurement t h) (measurements self))"
| "sht4x_call OpTemperature self = keep_self self (io_map VReal (temperature self))"
| "sht4x_call OpRelativeHumidity self = keep_self self (io_map VNum (relative_humidity self))"

inductive sht4x_reachable :: "sht4x \<Rightarrow> bus \<Rightarrow> bool" where
  init: "sht4x_init addr b = (Inr self, b') \<Longrightarrow> sht4x_reachable self b'"
| call: "sht4x_reachable self b \<Longrightarrow> sht4x_call op self b = ((r, self'), b') \<Longrightarrow>
         sht4x_reachable self' b'"

section \<open>Unfolded runs of the I/O methods\<close>

lemma measurements_run:
  "measurements self b =
     (if \<not> (0 \<le> sht_mode self \<and> sht_mode self < 256) then (Inl ValueError, b) else
      let A = sht_address self; M = word_of_int (sht_mode self) in
      case bus_device b (bus_log b) (I2cWrite A [M]) of
        None \<Rightarrow> (Inl OSError, b)
      | Some _ \<Rightarrow>
        (let b1 = b\<lparr>bus_log := bus_log b @ [Xfer (I2cWrite A [M]) [M]]\<rparr> in
         case cv_delay Mode (sht_mode self) of
           None \<Rightarrow> (Inl KeyError, b1)
         | Some d \<Rightarrow>
           (let b2 = b1\<lparr>bus_log := bus_log b1 @ [Sleep d]\<rparr> in
            case bus_device b2 (bus_log b2) (I2cRead A 6) of
              None \<Rightarrow> (Inl OSError, b2)
            | Some data \<Rightarrow>
              (let r = msg_buffer (I2cRead A 6) data in
               (rbind (split_response r) (\<lambda>(x, y). decode_measurement x y),
                b2\<lparr>bus_log := bus_log b2 @ [Xfer (I2cRead A 6) r]\<rparr>)))))"
  by (simp add: measurements_def io_bind_def io_lift_def py_bytes_def i2c_rdwr_def py_dict_get_def
           Let_def split: option.split)

lemma serial_number_run:
  "serial_number self b =
     (let A = sht_address self; C = word_of_int SHT4X_READSERIAL in
      case bus_device b (bus_log b) (I2cWrite A [C]) of
        None \<Rightarrow> (Inl OSError, b)
      | Some _ \<Rightarrow>
        (let b2 = b\<lparr>bus_log := bus_log b @ [Xfer (I2cWrite A [C]) [C], Sleep 0.01]\<rparr> in
         case bus_device b2 (bus_log b2) (I2cRead A 6) of
           None \<Rightarrow> (Inl OSError, b2)
         | Some data \<Rightarrow>
           (let r = msg_buffer (I2cRead A 6) data in
            (rbind (split_response r) (\<lambda>(x, y). assemble_serial x y),
             b2\<lparr>bus_log := bus_log b2 @ [Xfer (I2cRead A 6) r]\<rparr>))))"
  by (simp add: serial_number_def io_bind_def i2c_rdwr_def Let_def split: option.split)

lemma reset_run:
  "reset A b =
     (let C = word_of_int SHT4X_SOFTRESET in
      case bus_device b (bus_log b) (I2cWrite A [C]) of
        None \<Rightarrow> (Inl OSError, b)
      | Some _ \<Rightarrow> (Inr (), b\<lparr>bus_log := bus_log b @ [Xfer (I2cWrite A [C]) [C], Sleep 0.001]\<rparr>))"
  by (simp add: reset_def io_bind_def i2c_rdwr_def Let_def split: option.split)

lemma length_6_cases:
  assumes "length r = 6"
  obtains a b c d e f where "r = [a, b, c, d, e, f]"
  using assms by (auto simp: numeral_eq_Suc length_Suc_conv)

lemma split_response_6_cases:
  assumes "length r = 6"
  shows "split_response r = Inl RuntimeError \<or> (\<exists>a b d e. split_response r = Inr ([a, b], [d, e]))"
  using assms by (cases rule: length_6_cases) (auto simp: split_response_6)

lemma decode_measurement_pairs:
  "decode_measurement [a, b] [d, e] =
     Inr (convert_temperature (uint a * 256 + uint b), convert_humidity (uint d * 256 + uint e))"
  by (simp add: decode_measurement_def unpack_be16_def)

lemma be_pair_range: "0 \<le> uint (a::byte) * 256 + uint (b::byte) \<and> uint a * 256 + uint b \<le> 65535"
proof -
  have "uint a < 256" using uint_lt2p [of a] by simp
  moreover have "uint b < 256" using uint_lt2p [of b] by simp
  moreover have "0 \<le> uint a" "0 \<le> uint b" by simp_all
  ultimately show ?thesis by linarith
qed

lemma measurement_decode_cases:
  assumes "length r = 6"
  shows "rbind (split_response r) (\<lambda>(x, y). decode_measurement x y) = Inl RuntimeError
    \<or> (\<exists>t h. 0 \<le> t \<and> t \<le> 65535 \<and> 0 \<le> h \<and> h \<le> 65535
          \<and> rbind (split_response r) (\<lambda>(x, y). decode_measurement x y)
              = Inr (convert_temperature t, convert_humidity h))"
proof -
  from split_response_6_cases [OF assms]
  consider (err) "split_response r = Inl RuntimeError"
    | (ok) a b d e where "split_response r = Inr ([a, b], [d, e])"
    by blast
  then show ?thesis
  proof cases
    case err
    then show ?thesis by simp
  next
    case ok
    then have "rbind (split_response r) (\<lambda>(x, y). decode_measurement x y)
        = Inr (convert_temperature (uint a * 256 + uint b), convert_humidity (uint d * 256 + uint e))"
      by (simp add: decode_measurement_pairs)
    with be_pair_range [of a b] be_pair_range [of d e] show ?thesis by blast
  qed
qed

lemma decode_not_key_value_error:
  "rbind (split_response (take 6 data @ replicate (6 - length data) 0))
     (\<lambda>(x, y). decode_measurement x y) \<noteq> Inl KeyError
   \<and> rbind (split_response (take 6 data @ replicate (6 - length data) 0))
     (\<lambda>(x, y). decode_measurement x y) \<noteq> Inl ValueError"
proof -
  have "length (take 6 data @ replicate (6 - length data) (0::byte)) = 6"
    by (simp add: min_def)
  from measurement_decode_cases [OF this] show ?thesis by auto
qed

lemma measurements_key_error:
  "measurements self b = (Inl KeyError, b') \<Longrightarrow> cv_delay Mode (sht_mode self) = None"
  using decode_not_key_value_error by (auto simp: measurements_run Let_def split: option.splits if_splits)

lemma measurements_value_error:
  "measurements self b = (Inl ValueError, b') \<Longrightarrow> (sht_mode self < 0 \<or> 256 \<le> sht_mode self) \<and> b' = b"
  using decode_not_key_value_error by (auto simp: measurements_run Let_def split: option.splits if_splits)

lemma measurements_result:
  assumes "measurements self b = (r, b')"
  shows "r = Inl ValueError \<or> r = Inl OSError \<or> r = Inl KeyError \<or> r = Inl RuntimeError
    \<or> (\<exists>t h. 0 \<le> t \<and> t \<le> 65535 \<and> 0 \<le> h \<and> h \<le> 65535
          \<and> r = Inr (convert_temperature t, convert_humidity h))"
  using assms measurement_decode_cases [OF length_msg_buffer_read]
  by (auto simp: measurements_run Let_def split: option.splits if_splits)

lemma io_keeps_reset [intro]: "io_keeps (reset a)"
  unfolding reset_def by (intro io_keeps_bind io_keeps_rdwr io_keeps_sleep)

lemma io_keeps_serial_number [intro]: "io_keeps (serial_number self)"
  unfolding serial_number_def by (intro io_keeps_bind io_keeps_rdwr io_keeps_sleep io_keeps_return)

lemma io_keeps_measurements [intro]: "io_keeps (measurements self)"
  unfolding measurements_def by (intro io_keeps_bind io_keeps_rdwr io_keeps_sleep io_keeps_return)

lemma io_keeps_keep_self: "io_keeps m \<Longrightarrow> bus_ext b (snd (keep_self self m b))"
proof -
  assume "io_keeps m"
  then have "bus_ext b (snd (m b))" by (simp add: io_keeps_def)
  then show ?thesis by (cases "m b") (simp add: keep_self_def)
qed

lemma sht4x_call_bus_ext: "bus_ext b (snd (sht4x_call op self b))"
  by (cases op)
     (auto simp: temperature_def relative_humidity_def split: sum.split
           intro!: io_keeps_keep_self io_keeps_map io_keeps_return)

lemma keep_self_obj: "keep_self self m b = ((r, s'), b') \<Longrightarrow> s' = self"
  by (auto simp: keep_self_def split: prod.splits)

lemma set_mode_cases:
  "set_mode self v = (if v \<in> mode_codes then Inr (self\<lparr>sht_mode := v\<rparr>) else Inl AttributeError)"
  by (simp add: set_mode_def is_valid_Mode_cases mode_codes_def)

lemma sht4x_call_obj:
  assumes "sht4x_call op self b = ((r, s'), b')"
  shows "sht_address s' = sht_address self \<and> (s' = self \<or> is_valid Mode (sht_mode s'))"
  using assms by (cases op) (auto simp: set_mode_def dest: keep_self_obj split: sum.splits if_splits)

lemma sht4x_init_obj:
  "sht4x_init addr b = (Inr s, b') \<Longrightarrow> s = \<lparr>sht_address = addr, sht_mode = 0xFD\<rparr>"
  by (auto simp: sht4x_init_def io_bind_def Mode_attrs split: prod.splits sum.splits)

lemma reachable_obj: "sht4x_reachable self b \<Longrightarrow> is_valid Mode (sht_mode self)"
proof (induction rule: sht4x_reachable.induct)
  case (init addr b self b')
  then show ?case by (auto dest: sht4x_init_obj simp: is_valid_Mode_cases)
next
  case (call self b op r self' b')
  then show ?case using sht4x_call_obj by blast
qed

text \<open>
  C8. Invariant: in every object reachable from the constructor by any sequence of method
  calls, whatever they raised, \<open>_mode\<close> is one of the nine valid command codes.
\<close>
theorem sht4x_reachable_mode_valid:
  "sht4x_reachable self b \<Longrightarrow> is_valid Mode (sht_mode self) \<and> sht_mode self \<in> mode_codes"
proof -
  assume "sht4x_reachable self b"
  then have "is_valid Mode (sht_mode self)" by (rule reachable_obj)
  then show ?thesis by (simp add: is_valid_Mode_cases mode_codes_def)
qed

lemma init_accepting:
  "sht4x_init 0x44 accepting_bus =
     (Inr \<lparr>sht_address = 0x44, sht_mode = 0xFD\<rparr>,
      accepting_bus\<lparr>bus_log := [Xfer (I2cWrite 0x44 [0x94]) [0x94], Sleep 0.001]\<rparr>)"
  by (simp add: sht4x_init_def reset_run io_bind_def accepting_bus_def Mode_attrs SHT4X_SOFTRESET_def)

theorem sht4x_reachable_mode_valid_witness:
  "sht4x_reachable \<lparr>sht_address = 0x44, sht_mode = 0xFD\<rparr>
     (accepting_bus\<lparr>bus_log := [Xfer (I2cWrite 0x44 [0x94]) [0x94], Sleep 0.001]\<rparr>)
   \<and> is_valid Mode 0xFD \<and> (0xFD::int) \<in> mode_codes"
proof -
  have r: "sht4x_reachable \<lparr>sht_address = 0x44, sht_mode = 0xFD\<rparr>
     (accepting_bus\<lparr>bus_log := [Xfer (I2cWrite 0x44 [0x94]) [0x94], Sleep 0.001]\<rparr>)"
    by (rule sht4x_reachable.init [OF init_accepting])
  show ?thesis using r sht4x_reachable_mode_valid [OF r] by simp
qed

text \<open>
  C9. The mode setter stores a code of the table and raises AttributeError on any other
  int, leaving the object as it was (so \<open>mode = 0x00\<close> fails and keeps the old mode);
  it performs no I/O.
\<close>
theorem set_mode_call:
  "sht4x_call (OpSetMode v) self b =
     (if v \<in> mode_codes then ((Inr VNone, self\<lparr>sht_mode := v\<rparr>), b)
      else ((Inl AttributeError, self), b))"
  by (simp add: set_mode_cases)

text \<open>
  C14. The exceptions of \<open>measurements\<close>, on any object and any bus: ValueError exactly
  when \<open>_mode\<close> is not a byte (smbus2's \<open>bytes()\<close> rejects it, before any bus traffic),
  KeyError only for a mode without a delay, and otherwise only OSError (from the bus) or
  RuntimeError (a checksum mismatch): the six-byte read buffer rules out IndexError and
  struct errors.
\<close>

theorem measurements_errors:
  assumes "measurements self b = (Inl e, b')"
  shows "(e = ValueError \<longleftrightarrow> sht_mode self < 0 \<or> 256 \<le> sht_mode self)
         \<and> (e = ValueError \<longrightarrow> b' = b) \<and> (e = KeyError \<longrightarrow> cv_delay Mode (sht_mode self) = None)
         \<and> (e = OSError \<or> e = KeyError \<or> e = RuntimeError \<or> e = ValueError)"
proof -
  have "e = ValueError" if "sht_mode self < 0 \<or> 256 \<le> sht_mode self"
    using assms that by (auto simp: measurements_run)
  then show ?thesis
    using assms measurements_result [OF assms] measurements_value_error [of self b b']
          measurements_key_error [of self b b'] by auto
qed

theorem measurements_errors_witness:
  "measurements \<lparr>sht_address = 0x44, sht_mode = 300\<rparr> refusing_bus = (Inl ValueError, refusing_bus)
   \<and> (300 :: int) \<ge> 256
   \<and> measurements \<lparr>sht_address = 0x44, sht_mode = 0xFD\<rparr> refusing_bus = (Inl OSError, refusing_bus)
   \<and> (0 :: int) \<le> 0xFD \<and> (0xFD :: int) < 256"
proof -
  have v: "measurements \<lparr>sht_address = 0x44, sht_mode = 300\<rparr> refusing_bus = (Inl ValueError, refusing_bus)"
    by (simp add: measurements_run)
  have r: "measurements \<lparr>sht_address = 0x44, sht_mode = 0xFD\<rparr> refusing_bus = (Inl OSError, refusing_bus)"
    by (simp add: measurements_run refusing_bus_def)
  show ?thesis using v r measurements_errors [OF v] measurements_errors [OF r] by simp
qed

text \<open>
  C15. On a reachable object \<open>measurements\<close> never raises KeyError, on any bus: the
  lookup \<open>Mode.delay[self._mode]\<close> always succeeds.
\<close>
theorem reachable_measurements_no_key_error:
  "sht4x_reachable self b \<Longrightarrow> fst (measurements self b') \<noteq> Inl KeyError"
proof -
  assume "sht4x_reachable self b"
  then have "is_valid Mode (sht_mode self)" by (rule reachable_obj)
  then have "cv_delay Mode (sht_mode self) \<noteq> None"
    by (auto simp: is_valid_Mode_cases Mode_delay simp del: not_None_eq)
  then show ?thesis
    using measurements_key_error by (metis prod.collapse)
qed

theorem reachable_measurements_no_key_error_witness:
  "sht4x_reachable \<lparr>sht_address = 0x44, sht_mode = 0xFD\<rparr>
     (accepting_bus\<lparr>bus_log := [Xfer (I2cWrite 0x44 [0x94]) [0x94], Sleep 0.001]\<rparr>)
   \<and> fst (measurements \<lparr>sht_address = 0x44, sht_mode = 0xFD\<rparr> accepting_bus) \<noteq> Inl KeyError"
proof -
  have r: "sht4x_reachable \<lparr>sht_address = 0x44, sht_mode = 0xFD\<rparr>
     (accepting_bus\<lparr>bus_log := [Xfer (I2cWrite 0x44 [0x94]) [0x94], Sleep 0.001]\<rparr>)"
    by (rule sht4x_reachable.init [OF init_accepting])
  show ?thesis using r reachable_measurements_no_key_error [OF r] by simp
qed

text \<open>
  C11. Every measurement the driver returns has a temperature in [-45, 130] degrees
  Celsius and a relative humidity in [0, 100] percent.
\<close>
theorem measurements_range:
  "measurements self b = (Inr (t, h), b') \<Longrightarrow>
   -45 \<le> t \<and> t \<le> 130 \<and> 0 \<le> py_val h \<and> py_val h \<le> 100"
  using measurements_result [of self b "Inr (t, h)" b']
  by (auto simp: convert_humidity_range dest: convert_temperature_range)

lemma serial_value_range:
  "0 \<le> push_bit 24 (uint (a::byte)) + push_bit 16 (uint (b::byte)) + push_bit 8 (uint (c::byte)) + uint (d::byte)
   \<and> push_bit 24 (uint a) + push_bit 16 (uint b) + push_bit 8 (uint c) + uint d < 2 ^ 32"
proof -
  have "uint a < 256" using uint_lt2p [of a] by simp
  moreover have "uint b < 256" using uint_lt2p [of b] by simp
  moreover have "uint c < 256" using uint_lt2p [of c] by simp
  moreover have "uint d < 256" using uint_lt2p [of d] by simp
  moreover have "0 \<le> uint a" "0 \<le> uint b" "0 \<le> uint c" "0 \<le> uint d" by simp_all
  ultimately show ?thesis by (simp add: push_bit_eq_mult)
qed

lemma serial_decode_cases:
  "rbind (split_response (take 6 data @ replicate (6 - length data) 0)) (\<lambda>(x, y). assemble_serial x y)
     \<in> {Inl RuntimeError} \<union> Inr ` {0..<2 ^ 32}"
proof -
  have "length (take 6 data @ replicate (6 - length data) (0::byte)) = 6"
    by (simp add: min_def)
  from split_response_6_cases [OF this] show ?thesis
    using serial_value_range by (auto simp: assemble_serial_pairs)
qed

lemma serial_number_cases:
  "fst (serial_number self b) = Inl OSError \<or> fst (serial_number self b) = Inl RuntimeError
   \<or> (\<exists>n. 0 \<le> n \<and> n < 2 ^ 32 \<and> fst (serial_number self b) = Inr n)"
proof -
  have "fst (serial_number self b) \<in> {Inl OSError, Inl RuntimeError} \<union> Inr ` {0..<2 ^ 32}"
    using serial_decode_cases by (auto simp: serial_number_run Let_def split: option.split)
  then show ?thesis by auto
qed

text \<open>
  C19. \<open>serial_number\<close> either raises OSError or RuntimeError or returns an int in
  \<open>[0, 2^32)\<close>.
\<close>
theorem serial_number_outcome:
  "fst (serial_number self b) \<in> {Inl OSError, Inl RuntimeError} \<union> Inr ` {0..<2 ^ 32}"
  using serial_number_cases [of self b] by auto

text \<open>
  C18. When the bus accepts the write, \<open>reset\<close> writes the single byte 0x94, then sleeps
  1 ms, returns nothing, and leaves the object (its mode) unchanged.
\<close>
theorem reset_call:
  assumes "bus_device b (bus_log b) (I2cWrite (sht_address self) [0x94]) \<noteq> None"
  shows "sht4x_call OpReset self b =
    ((Inr VNone, self),
     b\<lparr>bus_log := bus_log b @ [Xfer (I2cWrite (sht_address self) [0x94]) [0x94], Sleep 0.001]\<rparr>)"
  using assms
  by (auto simp: reset_run keep_self_def io_map_def io_bind_def SHT4X_SOFTRESET_def)

theorem reset_call_witness:
  "bus_device accepting_bus (bus_log accepting_bus) (I2cWrite 0x44 [0x94]) \<noteq> None
   \<and> sht4x_call OpReset \<lparr>sht_address = 0x44, sht_mode = 0xFD\<rparr> accepting_bus =
    ((Inr VNone, \<lparr>sht_address = 0x44, sht_mode = 0xFD\<rparr>),
     accepting_bus\<lparr>bus_log := [Xfer (I2cWrite 0x44 [0x94]) [0x94], Sleep 0.001]\<rparr>)"
proof -
  have h: "bus_device accepting_bus (bus_log accepting_bus) (I2cWrite 0x44 [0x94]) \<noteq> None"
    by (simp add: accepting_bus_def)
  show ?thesis
    using h reset_call [of accepting_bus "\<lparr>sht_address = 0x44, sht_mode = 0xFD\<rparr>"]
    by (simp add: accepting_bus_def)
qed

end
