(* ===== verification/Runs.thy ===== *)
theory Runs
  imports Device
begin

text \<open>
  Programs that use the driver: a sequence of method calls on one object, each exception
  caught by the caller (the spec's error handling: an exception aborts the operation, not
  the handle). \<open>sht4x_run\<close> runs such a sequence with \<open>Device.sht4x_call\<close> and collects
  the outcome of every call. \<open>result_ok\<close> states, per method, the Python type and range
  of its value and the exceptions it may raise; \<open>correct_sensor\<close> is a device that
  acknowledges every write and answers every read with a frame whose checksums are right.
  The lemmas: every call on a reachable object has an outcome allowed by \<open>result_ok\<close>, runs
  stay reachable, and against a correct sensor every call of a run returns a value.
\<close>

unbundle bit_operations_syntax

section \<open>Runs of method calls\<close>

fun sht4x_run ::
  "sht4x_op list \<Rightarrow> sht4x \<Rightarrow> bus \<Rightarrow> (sht4x_value result list \<times> sht4x) \<times> bus" where
  "sht4x_run [] self b = (([], self), b)"
| "sht4x_run (op # ops) self b =
     (case sht4x_call op self b of
        ((r, self'), b') \<Rightarrow>
          (case sht4x_run ops self' b' of ((rs, self''), b'') \<Rightarrow> ((r # rs, self''), b'')))"

section \<open>The outcome each method may have\<close>

text \<open>
  The value of a method: \<open>None\<close> for \<open>reset\<close> and the setter, an int in \<open>[0, 2^32)\<close>
  for \<open>serial_number\<close>, a mode code for the getter, a temperature in [-45, 130] and a
  humidity in [0, 100] for the reads.
\<close>

fun value_ok :: "sht4x_op \<Rightarrow> sht4x_value \<Rightarrow> bool" where
  "value_ok OpReset v = (v = VNone)"
| "value_ok OpSerialNumber v = (case v of VInt n \<Rightarrow> 0 \<le> n \<and> n < 2 ^ 32 | _ \<Rightarrow> False)"
| "value_ok OpGetMode v = (case v of VInt m \<Rightarrow> m \<in> mode_codes | _ \<Rightarrow> False)"
| "value_ok (OpSetMode c) v = (v = VNone)"
| "value_ok OpMeasurements v =
     (case v of VMeasurement t h \<Rightarrow> -45 \<le> t \<and> t \<le> 130 \<and> 0 \<le> py_val h \<and> py_val h \<le> 100
      | _ \<Rightarrow> False)"
| "value_ok OpTemperature v = (case v of VReal t \<Rightarrow> -45 \<le> t \<and> t \<le> 130 | _ \<Rightarrow> False)"
| "value_ok OpRelativeHumidity v =
     (case v of VNum h \<Rightarrow> 0 \<le> py_val h \<and> py_val h \<le> 100 | _ \<Rightarrow> False)"

text \<open>
  The exceptions of a method: OSError from the bus for every method that does I/O,
  RuntimeError from a checksum mismatch for the reads, AttributeError from the setter.
\<close>

fun error_ok :: "sht4x_op \<Rightarrow> py_error \<Rightarrow> bool" where
  "error_ok OpReset e = (e = OSError)"
| "error_ok OpSerialNumber e = (e = OSError \<or> e = RuntimeError)"
| "error_ok OpGetMode e = False"
| "error_ok (OpSetMode c) e = (e = AttributeError)"
| "error_ok OpMeasurements e = (e = OSError \<or> e = RuntimeError)"
| "error_ok OpTemperature e = (e = OSError \<or> e = RuntimeError)"
| "error_ok OpRelativeHumidity e = (e = OSError \<or> e = RuntimeError)"

definition result_ok :: "sht4x_op \<Rightarrow> sht4x_value result \<Rightarrow> bool" where
  "result_ok op r = (case r of Inl e \<Rightarrow> error_ok op e | Inr v \<Rightarrow> value_ok op v)"

section \<open>A correct sensor\<close>

definition correct_sensor :: "bus \<Rightarrow> bool" where
  "correct_sensor b \<longleftrightarrow>
     (\<forall>events a bs. bus_device b events (I2cWrite a bs) \<noteq> None)
     \<and> (\<forall>events a. \<exists>t h. bus_device b events (I2cRead a 6) = Some (response_frame t h))"

text \<open>A call the caller can expect to succeed: the setter only with a code of the table.\<close>

fun valid_op :: "sht4x_op \<Rightarrow> bool" where
  "valid_op (OpSetMode c) = (c \<in> mode_codes)"
| "valid_op _ = True"

section \<open>The bus events of a call\<close>

text \<open>
  The protocol of spec section 5: one write of the command byte, one blocking delay, and
  for the reads one read of six bytes, in this order. \<open>data\<close> is what the read returned.
  A measurement with a mode that has no delay stops after the write (KeyError).
\<close>

definition meas_events :: "sht4x \<Rightarrow> byte list \<Rightarrow> bus_event list" where
  "meas_events self data =
     (let A = sht_address self; M = word_of_int (sht_mode self) in
      case cv_delay Mode (sht_mode self) of
        None \<Rightarrow> [Xfer (I2cWrite A [M]) [M]]
      | Some d \<Rightarrow> [Xfer (I2cWrite A [M]) [M], Sleep d, Xfer (I2cRead A 6) data])"

fun op_events :: "sht4x_op \<Rightarrow> sht4x \<Rightarrow> byte list \<Rightarrow> bus_event list" where
  "op_events OpReset self data = [Xfer (I2cWrite (sht_address self) [0x94]) [0x94], Sleep 0.001]"
| "op_events OpSerialNumber self data =
     [Xfer (I2cWrite (sht_address self) [0x89]) [0x89], Sleep 0.01, Xfer (I2cRead (sht_address self) 6) data]"
| "op_events OpGetMode self data = []"
| "op_events (OpSetMode c) self data = []"
| "op_events OpMeasurements self data = meas_events self data"
| "op_events OpTemperature self data = meas_events self data"
| "op_events OpRelativeHumidity self data = meas_events self data"

section \<open>Outcomes of single calls\<close>

lemma reachable_delay: "sht4x_reachable self b0 \<Longrightarrow> cv_delay Mode (sht_mode self) \<noteq> None"
  using reachable_obj [of self b0]
  by (auto simp: is_valid_Mode_cases Mode_delay simp del: not_None_eq)

lemma io_map_run:
  "io_map g m b = (case m b of (Inl e, b') \<Rightarrow> (Inl e, b') | (Inr x, b') \<Rightarrow> (Inr (g x), b'))"
  by (simp add: io_map_def io_bind_def split: prod.split sum.split)

lemma keep_self_run: "keep_self self m b = (case m b of (r, b') \<Rightarrow> ((r, self), b'))"
  by (simp add: keep_self_def)

lemma reset_outcome: "fst (reset a b) = Inl OSError \<or> fst (reset a b) = Inr ()"
  by (simp add: reset_run Let_def split: option.split)

lemma reachable_measurements_outcome:
  assumes "sht4x_reachable self b0" and "measurements self b = (r, b')"
  shows "r = Inl OSError \<or> r = Inl RuntimeError
    \<or> (\<exists>t h. -45 \<le> t \<and> t \<le> 130 \<and> 0 \<le> py_val h \<and> py_val h \<le> 100 \<and> r = Inr (t, h))"
proof -
  have "cv_delay Mode (sht_mode self) \<noteq> None"
    using reachable_delay [OF assms(1)] .
  then have "r \<noteq> Inl KeyError" "r \<noteq> Inl ValueError"
    using assms(2) measurements_key_error [of self b b'] measurements_value_error [of self b b']
          Mode_delay_byte [of "sht_mode self"] by auto
  then show ?thesis
    using measurements_result [OF assms(2)]
    by (auto simp: convert_humidity_range dest: convert_temperature_range)
qed

lemma call_result_ok:
  assumes "sht4x_reachable self b0" and "sht4x_call op self b = ((r, s'), b')"
  shows "result_ok op r"
proof (cases op)
  case OpReset
  then show ?thesis
    using assms(2) reset_outcome [of "sht_address self" b]
    by (auto simp: result_ok_def keep_self_run io_map_run split: prod.splits sum.splits)
next
  case OpSerialNumber
  then show ?thesis
    using assms(2) serial_number_cases [of self b]
    by (auto simp: result_ok_def keep_self_run io_map_run split: prod.splits sum.splits)
next
  case OpGetMode
  then show ?thesis
    using assms reachable_obj [OF assms(1)]
    by (auto simp: result_ok_def keep_self_def get_mode_def is_valid_Mode_cases mode_codes_def)
next
  case (OpSetMode c)
  then show ?thesis
    using assms(2) by (auto simp: result_ok_def set_mode_def split: if_splits)
next
  case OpMeasurements
  then show ?thesis
    using assms(2) reachable_measurements_outcome [OF assms(1), of b]
    by (auto simp: result_ok_def keep_self_run io_map_run split: prod.splits sum.splits)
next
  case OpTemperature
  then show ?thesis
    using assms(2) reachable_measurements_outcome [OF assms(1), of b]
    by (auto simp: result_ok_def keep_self_run io_map_run temperature_def split: prod.splits sum.splits)
next
  case OpRelativeHumidity
  then show ?thesis
    using assms(2) reachable_measurements_outcome [OF assms(1), of b]
    by (auto simp: result_ok_def keep_self_run io_map_run relative_humidity_def
             split: prod.splits sum.splits)
qed

lemma correct_sensor_device:
  "bus_device b' = bus_device b \<Longrightarrow> correct_sensor b' = correct_sensor b"
  by (simp add: correct_sensor_def)

lemma correct_sensor_write: "correct_sensor b \<Longrightarrow> \<exists>x. bus_device b events (I2cWrite a bs) = Some x"
  by (auto simp: correct_sensor_def)

lemma correct_sensor_read:
  "correct_sensor b \<Longrightarrow> \<exists>t h. bus_device b events (I2cRead a 6) = Some (response_frame t h)"
  by (simp add: correct_sensor_def)


lemma correct_sensor_measurements:
  assumes "sht4x_reachable self b0" and "correct_sensor b"
  shows "\<exists>v. fst (measurements self b) = Inr v"
proof -
  obtain d where d: "cv_delay Mode (sht_mode self) = Some d"
    using reachable_delay [OF assms(1)] by auto
  obtain x where w: "bus_device b (bus_log b) (I2cWrite (sht_address self) [word_of_int (sht_mode self)]) = Some x"
    using correct_sensor_write [OF assms(2)] by blast
  obtain t h where r: "bus_device b (bus_log b @ [Xfer (I2cWrite (sht_address self) [word_of_int (sht_mode self)])
      [word_of_int (sht_mode self)], Sleep d]) (I2cRead (sht_address self) 6) = Some (response_frame t h)"
    using correct_sensor_read [OF assms(2)] by blast
  show ?thesis
    using d w r Mode_delay_byte [of "sht_mode self"]
    by (simp add: measurements_run Let_def split_response_frame decode_measurement_def
                  unpack_be16_be_bytes del: msg_buffer.simps)
qed

lemma correct_sensor_serial_number:
  assumes "correct_sensor b"
  shows "\<exists>v. fst (serial_number self b) = Inr v"
proof -
  obtain x where w: "bus_device b (bus_log b) (I2cWrite (sht_address self) [word_of_int SHT4X_READSERIAL]) = Some x"
    using correct_sensor_write [OF assms] by blast
  obtain t h where r: "bus_device b (bus_log b @ [Xfer (I2cWrite (sht_address self) [word_of_int SHT4X_READSERIAL])
      [word_of_int SHT4X_READSERIAL], Sleep 0.01]) (I2cRead (sht_address self) 6) = Some (response_frame t h)"
    using correct_sensor_read [OF assms] by blast
  show ?thesis
    using w r
    by (simp add: serial_number_run Let_def split_response_frame be_bytes_def assemble_serial_pairs
             del: msg_buffer.simps)
qed

lemma correct_sensor_call:
  assumes "sht4x_reachable self b0" and "correct_sensor b" and "valid_op op"
  shows "\<exists>v. fst (fst (sht4x_call op self b)) = Inr v"
proof (cases op)
  case OpReset
  obtain x where "bus_device b (bus_log b) (I2cWrite (sht_address self) [word_of_int SHT4X_SOFTRESET]) = Some x"
    using correct_sensor_write [OF assms(2)] by blast
  then show ?thesis using OpReset by (simp add: keep_self_run io_map_run reset_run Let_def)
next
  case OpSerialNumber
  then show ?thesis
    using correct_sensor_serial_number [OF assms(2), of self]
    by (auto simp: keep_self_run io_map_run split: prod.split sum.split)
next
  case OpGetMode
  then show ?thesis by (simp add: keep_self_def)
next
  case (OpSetMode c)
  then show ?thesis using assms(3) by (simp add: set_mode_cases)
next
  case OpMeasurements
  then show ?thesis
    using correct_sensor_measurements [OF assms(1,2)]
    by (auto simp: keep_self_run io_map_run split: prod.split sum.split)
next
  case OpTemperature
  then show ?thesis
    using correct_sensor_measurements [OF assms(1,2)]
    by (auto simp: keep_self_run io_map_run temperature_def split: prod.split sum.split)
next
  case OpRelativeHumidity
  then show ?thesis
    using correct_sensor_measurements [OF assms(1,2)]
    by (auto simp: keep_self_run io_map_run relative_humidity_def split: prod.split sum.split)
qed

section \<open>Runs\<close>

lemma correct_sensor_bus_ext: "correct_sensor b \<Longrightarrow> bus_ext b b' \<Longrightarrow> correct_sensor b'"
  unfolding bus_ext_def using correct_sensor_device by blast

lemma correct_sensor_call_keeps:
  "correct_sensor b \<Longrightarrow> sht4x_call op self b = ((r, s'), b') \<Longrightarrow> correct_sensor b'"
  using correct_sensor_bus_ext sht4x_call_bus_ext [of b op self] by simp

lemma sht4x_run_reachable:
  "sht4x_reachable self b \<Longrightarrow> sht4x_run ops self b = ((rs, s'), b') \<Longrightarrow>
   sht4x_reachable s' b' \<and> list_all2 result_ok ops rs"
proof (induction ops arbitrary: self b rs s' b')
  case Nil
  then show ?case by simp
next
  case (Cons op ops)
  obtain r s1 b1 where c: "sht4x_call op self b = ((r, s1), b1)" by (metis prod.exhaust)
  obtain rs1 s2 b2 where t: "sht4x_run ops s1 b1 = ((rs1, s2), b2)" by (metis prod.exhaust)
  have "sht4x_reachable s1 b1" by (rule sht4x_reachable.call [OF Cons.prems(1) c])
  then have "sht4x_reachable s2 b2 \<and> list_all2 result_ok ops rs1" by (rule Cons.IH [OF _ t])
  moreover have "result_ok op r" by (rule call_result_ok [OF Cons.prems(1) c])
  ultimately show ?case using Cons.prems(2) c t by auto
qed

lemma sht4x_run_correct_sensor:
  "sht4x_reachable self b \<Longrightarrow> correct_sensor b \<Longrightarrow> list_all valid_op ops \<Longrightarrow>
   sht4x_run ops self b = ((rs, s'), b') \<Longrightarrow> list_all (\<lambda>r. \<exists>v. r = Inr v) rs"
proof (induction ops arbitrary: self b rs s' b')
  case Nil
  then show ?case by simp
next
  case (Cons op ops)
  obtain r s1 b1 where c: "sht4x_call op self b = ((r, s1), b1)" by (metis prod.exhaust)
  obtain rs1 s2 b2 where t: "sht4x_run ops s1 b1 = ((rs1, s2), b2)" by (metis prod.exhaust)
  have reach: "sht4x_reachable s1 b1" by (rule sht4x_reachable.call [OF Cons.prems(1) c])
  have "correct_sensor b1" by (rule correct_sensor_call_keeps [OF Cons.prems(2) c])
  then have "list_all (\<lambda>r. \<exists>v. r = Inr v) rs1"
    using Cons.IH [OF reach _ _ t] Cons.prems(3) by simp
  moreover have "\<exists>v. r = Inr v"
    using correct_sensor_call [OF Cons.prems(1,2)] Cons.prems(3) c by fastforce
  ultimately show ?case using Cons.prems(4) c t by auto
qed

lemma init_answering:
  "sht4x_init 0x44 \<lparr>bus_log = [], bus_device = answering (response_frame 0x6666 0x8000)\<rparr> =
     (Inr \<lparr>sht_address = 0x44, sht_mode = 0xFD\<rparr>,
      \<lparr>bus_log = [Xfer (I2cWrite 0x44 [0x94]) [0x94], Sleep 0.001],
       bus_device = answering (response_frame 0x6666 0x8000)\<rparr>)"
  by (simp add: sht4x_init_def reset_run io_bind_def answering_def Mode_attrs SHT4X_SOFTRESET_def)

lemma reachable_answering:
  "sht4x_reachable \<lparr>sht_address = 0x44, sht_mode = 0xFD\<rparr>
     \<lparr>bus_log = [Xfer (I2cWrite 0x44 [0x94]) [0x94], Sleep 0.001],
      bus_device = answering (response_frame 0x6666 0x8000)\<rparr>"
  by (rule sht4x_reachable.init [OF init_answering])

section \<open>Properties of programs using the driver\<close>

text \<open>
  C21. Every outcome of every call in any sequence of method calls on an object reachable
  from the constructor is documented: a value of the method's Python type and range (a
  u32 serial number, a mode code, a temperature in [-45, 130], a humidity in [0, 100]) or
  one of the method's exceptions (OSError, RuntimeError, AttributeError). KeyError,
  IndexError and struct errors never escape, whatever the sensor sends.
\<close>

theorem run_outcomes_documented:
  "sht4x_reachable self b \<Longrightarrow> list_all2 result_ok ops (fst (fst (sht4x_run ops self b)))"
  using sht4x_run_reachable by (metis prod.collapse)

theorem run_outcomes_documented_witness:
  "sht4x_reachable \<lparr>sht_address = 0x44, sht_mode = 0xFD\<rparr>
     \<lparr>bus_log = [Xfer (I2cWrite 0x44 [0x94]) [0x94], Sleep 0.001],
      bus_device = answering (response_frame 0x6666 0x8000)\<rparr>
   \<and> list_all2 result_ok [OpSetMode 0, OpMeasurements, OpSerialNumber]
       (fst (fst (sht4x_run [OpSetMode 0, OpMeasurements, OpSerialNumber]
          \<lparr>sht_address = 0x44, sht_mode = 0xFD\<rparr>
          \<lparr>bus_log = [Xfer (I2cWrite 0x44 [0x94]) [0x94], Sleep 0.001],
           bus_device = answering (response_frame 0x6666 0x8000)\<rparr>)))"
  using reachable_answering run_outcomes_documented [OF reachable_answering] by (rule conjI)

text \<open>
  C22. Progress: against a sensor that acknowledges every write and answers every read with
  a frame whose checksums are right, every call of any sequence of calls on a reachable
  object returns a value, provided the setter is only given codes of the table.
\<close>

theorem run_correct_sensor_succeeds:
  "sht4x_reachable self b \<Longrightarrow> correct_sensor b \<Longrightarrow> list_all valid_op ops \<Longrightarrow>
   list_all (\<lambda>r. \<exists>v. r = Inr v) (fst (fst (sht4x_run ops self b)))"
  using sht4x_run_correct_sensor by (metis prod.collapse)

theorem run_correct_sensor_succeeds_witness:
  "sht4x_reachable \<lparr>sht_address = 0x44, sht_mode = 0xFD\<rparr>
     \<lparr>bus_log = [Xfer (I2cWrite 0x44 [0x94]) [0x94], Sleep 0.001],
      bus_device = answering (response_frame 0x6666 0x8000)\<rparr>
   \<and> correct_sensor \<lparr>bus_log = [Xfer (I2cWrite 0x44 [0x94]) [0x94], Sleep 0.001],
      bus_device = answering (response_frame 0x6666 0x8000)\<rparr>
   \<and> list_all valid_op [OpSetMode 0x2F, OpMeasurements, OpSerialNumber, OpReset]
   \<and> list_all (\<lambda>r. \<exists>v. r = Inr v)
       (fst (fst (sht4x_run [OpSetMode 0x2F, OpMeasurements, OpSerialNumber, OpReset]
          \<lparr>sht_address = 0x44, sht_mode = 0xFD\<rparr>
          \<lparr>bus_log = [Xfer (I2cWrite 0x44 [0x94]) [0x94], Sleep 0.001],
           bus_device = answering (response_frame 0x6666 0x8000)\<rparr>)))"
proof -
  have c: "correct_sensor \<lparr>bus_log = [Xfer (I2cWrite 0x44 [0x94]) [0x94], Sleep 0.001],
      bus_device = answering (response_frame 0x6666 0x8000)\<rparr>"
    by (auto simp: correct_sensor_def answering_def)
  have v: "list_all valid_op [OpSetMode 0x2F, OpMeasurements, OpSerialNumber, OpReset]"
    by (simp add: mode_codes_def)
  show ?thesis
    using reachable_answering c v run_correct_sensor_succeeds [OF reachable_answering c v] by blast
qed

end
