(* ===== verification/Protocol.thy ===== *)
theory Protocol
  imports Runs
begin

text \<open>
  The bus protocol of single method calls (spec section 5): every call appends to the bus log
  a prefix of the sequence of events its method performs, the whole sequence when it returns,
  and a call that raises leaves the object unchanged. Composed over a run of calls
  (\<open>sht4x_run\<close>): every transaction goes to the object's address (\<open>xfer_addr\<close>) and
  there are at most two per call.
\<close>

section \<open>Addresses of bus events\<close>

text \<open>
  The transaction of a bus event, if it is one: the address of its message. A run talks only
  to the object's address and makes at most two transactions per call.
\<close>

fun msg_addr :: "i2c_msg \<Rightarrow> int" where
  "msg_addr (I2cWrite a bs) = a"
| "msg_addr (I2cRead a n) = a"

fun xfer_addr :: "bus_event \<Rightarrow> int option" where
  "xfer_addr (Xfer m d) = Some (msg_addr m)"
| "xfer_addr (Sleep t) = None"


section \<open>Bus events of single calls\<close>

lemma measurements_events_byte:
  assumes "measurements self b = (r, b')" and byte: "0 \<le> sht_mode self \<and> sht_mode self < 256"
  shows "\<exists>es data. bus_log b' = bus_log b @ es \<and> prefix es (meas_events self data)
           \<and> ((\<exists>e. r = Inl e) \<or> es = meas_events self data)"
proof -
  define A where "A = sht_address self"
  define M :: byte where "M = word_of_int (sht_mode self)"
  define W where "W = Xfer (I2cWrite A [M]) [M]"
  consider (wfail) "bus_device b (bus_log b) (I2cWrite A [M]) = None"
    | (nodelay) x where "bus_device b (bus_log b) (I2cWrite A [M]) = Some x"
        "cv_delay Mode (sht_mode self) = None"
    | (rfail) x d where "bus_device b (bus_log b) (I2cWrite A [M]) = Some x"
        "cv_delay Mode (sht_mode self) = Some d"
        "bus_device b (bus_log b @ [W, Sleep d]) (I2cRead A 6) = None"
    | (ok) x d data where "bus_device b (bus_log b) (I2cWrite A [M]) = Some x"
        "cv_delay Mode (sht_mode self) = Some d"
        "bus_device b (bus_log b @ [W, Sleep d]) (I2cRead A 6) = Some data"
    by (metis not_None_eq)
  then show ?thesis
  proof cases
    case wfail
    with assms have "b' = b \<and> r = Inl OSError" using byte by (auto simp: measurements_run Let_def A_def M_def)
    then show ?thesis by (intro exI [of _ "[]"]) simp
  next
    case nodelay
    with assms have "bus_log b' = bus_log b @ [W] \<and> r = Inl KeyError"
      using byte by (auto simp: measurements_run Let_def A_def M_def W_def)
    then show ?thesis using nodelay by (intro exI [of _ "[W]"]) (simp add: meas_events_def W_def A_def M_def Let_def)
  next
    case rfail
    with assms have "bus_log b' = bus_log b @ [W, Sleep (the (cv_delay Mode (sht_mode self)))] \<and> r = Inl OSError"
      using byte by (auto simp: measurements_run Let_def A_def M_def W_def)
    then show ?thesis using rfail
      by (intro exI [of _ "[W, Sleep (the (cv_delay Mode (sht_mode self)))]"])
         (simp add: meas_events_def W_def A_def M_def Let_def)
  next
    case ok
    let ?buf = "msg_buffer (I2cRead A 6) data"
    from ok assms have "bus_log b' = bus_log b @ [W, Sleep (the (cv_delay Mode (sht_mode self))), Xfer (I2cRead A 6) ?buf]"
      using byte by (auto simp: measurements_run Let_def A_def M_def W_def)
    then show ?thesis using ok
      by (intro exI [of _ "[W, Sleep (the (cv_delay Mode (sht_mode self))), Xfer (I2cRead A 6) ?buf]"] exI [of _ ?buf])
         (simp add: meas_events_def W_def A_def M_def Let_def)
  qed
qed

lemma measurements_events:
  assumes "measurements self b = (r, b')"
  shows "\<exists>es data. bus_log b' = bus_log b @ es \<and> prefix es (meas_events self data)
           \<and> ((\<exists>e. r = Inl e) \<or> es = meas_events self data)"
proof (cases "0 \<le> sht_mode self \<and> sht_mode self < 256")
  case True
  from measurements_events_byte [OF assms True] show ?thesis .
next
  case False
  with assms have "b' = b \<and> r = Inl ValueError" by (simp add: measurements_run)
  then show ?thesis by (intro exI [of _ "[]"]) simp
qed

lemma serial_number_events:
  assumes "serial_number self b = (r, b')"
  shows "\<exists>es data. bus_log b' = bus_log b @ es \<and> prefix es (op_events OpSerialNumber self data)
           \<and> ((\<exists>e. r = Inl e) \<or> es = op_events OpSerialNumber self data)"
proof -
  define A where "A = sht_address self"
  define W where "W = Xfer (I2cWrite A [0x89]) [0x89]"
  consider (wfail) "bus_device b (bus_log b) (I2cWrite A [0x89]) = None"
    | (rfail) x where "bus_device b (bus_log b) (I2cWrite A [0x89]) = Some x"
        "bus_device b (bus_log b @ [W, Sleep 0.01]) (I2cRead A 6) = None"
    | (ok) x data where "bus_device b (bus_log b) (I2cWrite A [0x89]) = Some x"
        "bus_device b (bus_log b @ [W, Sleep 0.01]) (I2cRead A 6) = Some data"
    by (metis not_None_eq)
  then show ?thesis
  proof cases
    case wfail
    with assms have "b' = b \<and> r = Inl OSError"
      by (auto simp: serial_number_run Let_def A_def SHT4X_READSERIAL_def)
    then show ?thesis by (intro exI [of _ "[]"]) simp
  next
    case rfail
    with assms have "bus_log b' = bus_log b @ [W, Sleep 0.01] \<and> r = Inl OSError"
      by (auto simp: serial_number_run Let_def A_def W_def SHT4X_READSERIAL_def)
    then show ?thesis by (intro exI [of _ "[W, Sleep 0.01]"]) (simp add: W_def A_def)
  next
    case ok
    let ?buf = "msg_buffer (I2cRead A 6) data"
    from ok assms have "bus_log b' = bus_log b @ [W, Sleep 0.01, Xfer (I2cRead A 6) ?buf]"
      by (auto simp: serial_number_run Let_def A_def W_def SHT4X_READSERIAL_def)
    then show ?thesis
      by (intro exI [of _ "[W, Sleep 0.01, Xfer (I2cRead A 6) ?buf]"] exI [of _ ?buf]) (simp add: W_def A_def)
  qed
qed

lemma keep_self_events:
  "keep_self self m b = ((r, s'), b') \<Longrightarrow> m b = (r, b') \<and> s' = self"
  by (simp add: keep_self_def split: prod.splits)

lemma io_map_events:
  "io_map g m b = (r, b') \<Longrightarrow> m b = (fst (m b), b') \<and> isl (fst (m b)) = isl r"
  by (auto simp: io_map_run split: prod.splits sum.splits)

lemma ex_Inl_iff_isl: "(\<exists>e. x = Inl e) \<longleftrightarrow> isl x"
  by (cases x) simp_all

lemma reset_op_events:
  assumes "reset (sht_address self) b = (r, b')"
  shows "\<exists>es data. bus_log b' = bus_log b @ es \<and> prefix es (op_events OpReset self data)
           \<and> ((\<exists>e. r = Inl e) \<or> es = op_events OpReset self data)"
proof -
  from assms have "bus_log b' = bus_log b \<and> r = Inl OSError
      \<or> bus_log b' = bus_log b @ op_events OpReset self [] \<and> r = Inr ()"
    by (auto simp: reset_run Let_def SHT4X_SOFTRESET_def split: option.splits)
  then show ?thesis by (metis append_Nil2 prefix_bot.bot_least prefix_order.refl)
qed

lemma keep_self_io_map_events:
  assumes k: "keep_self self (io_map g m) b = ((r, s'), b')"
    and ev: "\<And>r0. m b = (r0, b') \<Longrightarrow> \<exists>es data. bus_log b' = bus_log b @ es \<and> prefix es (E data)
               \<and> ((\<exists>e. r0 = Inl e) \<or> es = E data)"
  shows "\<exists>es data. bus_log b' = bus_log b @ es \<and> prefix es (E data)
           \<and> ((\<exists>e. r = Inl e) \<or> es = E data) \<and> (s' = self \<or> (\<exists>v. r = Inr v))"
proof -
  from keep_self_events [OF k] have m: "io_map g m b = (r, b')" and s: "s' = self" by simp_all
  from io_map_events [OF m] have m0: "m b = (fst (m b), b')" and i: "isl (fst (m b)) = isl r"
    by simp_all
  from ev [OF m0] obtain es data where "bus_log b' = bus_log b @ es" "prefix es (E data)"
    "isl r \<or> es = E data" unfolding ex_Inl_iff_isl i by blast
  then show ?thesis unfolding ex_Inl_iff_isl using s by blast
qed

lemma measurements_call_events:
  assumes "io_map g (measurements self) b = (r, b')"
  shows "\<exists>es data. bus_log b' = bus_log b @ es \<and> prefix es (meas_events self data)
           \<and> ((\<exists>e. r = Inl e) \<or> es = meas_events self data)"
proof -
  from io_map_events [OF assms] have m0: "measurements self b = (fst (measurements self b), b')"
    and i: "isl (fst (measurements self b)) = isl r" by simp_all
  from measurements_events [OF m0] show ?thesis unfolding ex_Inl_iff_isl i .
qed

lemma call_keeps_address:
  "sht4x_call op self b = ((r, s'), b') \<Longrightarrow> sht_address s' = sht_address self"
  by (cases op) (auto simp: keep_self_def set_mode_def split: prod.splits if_splits)

lemma protocol_prefix_weaken:
  "\<exists>es data. l' = l @ es \<and> prefix es (E data) \<and> X es data \<and> Y
   \<Longrightarrow> \<exists>es data. l' = l @ es \<and> prefix es (E data)"
  by blast

lemma call_protocol_not_reset:
  assumes "sht4x_call op self b = ((r, s'), b')" and "op \<noteq> OpReset"
  shows "\<exists>es data. bus_log b' = bus_log b @ es \<and> prefix es (op_events op self data)
           \<and> ((\<exists>e. r = Inl e) \<or> es = op_events op self data)
           \<and> (s' = self \<or> (\<exists>v. r = Inr v))"
proof (cases op)
  case OpReset
  with assms(2) show ?thesis by simp
next
  case OpSerialNumber
  from assms(1) have "keep_self self (io_map VInt (serial_number self)) b = ((r, s'), b')"
    unfolding OpSerialNumber sht4x_call.simps .
  from keep_self_io_map_events [OF this serial_number_events] show ?thesis unfolding OpSerialNumber .
next
  case OpGetMode
  then show ?thesis using assms(1) by (auto simp: keep_self_def intro: exI [of _ "[]"])
next
  case (OpSetMode c)
  then show ?thesis using assms(1) by (auto simp: set_mode_def split: if_splits intro: exI [of _ "[]"])
next
  case OpMeasurements
  from assms(1) have "keep_self self (io_map (\<lambda>(t, h). VMeasurement t h) (measurements self)) b = ((r, s'), b')"
    unfolding OpMeasurements sht4x_call.simps .
  from keep_self_io_map_events [OF this measurements_events] show ?thesis
    unfolding OpMeasurements op_events.simps .
next
  case OpTemperature
  from assms(1) have "keep_self self (io_map VReal (io_map fst (measurements self))) b = ((r, s'), b')"
    unfolding OpTemperature sht4x_call.simps temperature_def .
  from keep_self_io_map_events [OF this measurements_call_events] show ?thesis
    unfolding OpTemperature op_events.simps .
next
  case OpRelativeHumidity
  from assms(1) have "keep_self self (io_map VNum (io_map snd (measurements self))) b = ((r, s'), b')"
    unfolding OpRelativeHumidity sht4x_call.simps relative_humidity_def .
  from keep_self_io_map_events [OF this measurements_call_events] show ?thesis
    unfolding OpRelativeHumidity op_events.simps .
qed

lemma call_events_prefix:
  assumes "sht4x_call op self b = ((r, s'), b')"
  shows "\<exists>es data. bus_log b' = bus_log b @ es \<and> prefix es (op_events op self data)"
proof (cases "op = OpReset")
  case True
  from assms have "keep_self self (io_map (\<lambda>_. VNone) (reset (sht_address self))) b = ((r, s'), b')"
    unfolding True sht4x_call.simps .
  from protocol_prefix_weaken [OF keep_self_io_map_events [OF this reset_op_events]] show ?thesis
    unfolding True .
next
  case False
  from protocol_prefix_weaken [OF call_protocol_not_reset [OF assms False]] show ?thesis .
qed

lemma op_events_xfers:
  "set (List.map_filter xfer_addr (op_events op self data)) \<subseteq> {sht_address self}
   \<and> length (List.map_filter xfer_addr (op_events op self data)) \<le> 2"
  by (cases op) (auto simp: meas_events_def Let_def map_filter_simps split: option.splits)

lemma prefix_map_filter: "prefix xs ys \<Longrightarrow> prefix (List.map_filter f xs) (List.map_filter f ys)"
  by (auto simp: prefix_def map_filter_def)

lemma call_xfers:
  assumes "sht4x_call op self b = ((r, s'), b')"
  shows "\<exists>es. bus_log b' = bus_log b @ es \<and> set (List.map_filter xfer_addr es) \<subseteq> {sht_address self}
           \<and> length (List.map_filter xfer_addr es) \<le> 2"
proof -
  obtain es data where es: "bus_log b' = bus_log b @ es" "prefix es (op_events op self data)"
    using call_events_prefix [OF assms] by blast
  have p: "prefix (List.map_filter xfer_addr es) (List.map_filter xfer_addr (op_events op self data))"
    by (rule prefix_map_filter [OF es(2)])
  with op_events_xfers [of op self data] set_mono_prefix [OF p] prefix_length_le [OF p] es(1)
  show ?thesis by auto
qed

section \<open>The protocol of every call\<close>

text \<open>
  C12. Every method call follows the protocol of spec section 5: it appends to the bus log a
  prefix of its own sequence (one write of its command byte, one delay of its settling time,
  and for the reads one read of six bytes, in this order; nothing for the mode accessors),
  the whole sequence when it returns a value, no retries; and a call that raises leaves the
  object as it was (no partial state).
\<close>

theorem call_follows_protocol:
  assumes "sht4x_call op self b = ((r, s'), b')"
  shows "\<exists>es data. bus_log b' = bus_log b @ es \<and> prefix es (op_events op self data)
           \<and> ((\<exists>e. r = Inl e) \<or> es = op_events op self data)
           \<and> (s' = self \<or> (\<exists>v. r = Inr v))"
proof (cases "op = OpReset")
  case True
  from assms have "keep_self self (io_map (\<lambda>_. VNone) (reset (sht_address self))) b = ((r, s'), b')"
    unfolding True sht4x_call.simps .
  moreover have "\<exists>es data. bus_log b' = bus_log b @ es \<and> prefix es (op_events OpReset self data)
             \<and> ((\<exists>e. r0 = Inl e) \<or> es = op_events OpReset self data)"
    if "reset (sht_address self) b = (r0, b')" for r0
  proof -
    from that have "bus_log b' = bus_log b \<and> r0 = Inl OSError
        \<or> bus_log b' = bus_log b @ op_events OpReset self [] \<and> r0 = Inr ()"
      by (auto simp: reset_run Let_def SHT4X_SOFTRESET_def split: option.splits)
    then show ?thesis by (metis append_Nil2 prefix_bot.bot_least prefix_order.refl)
  qed
  ultimately show ?thesis unfolding True by (rule keep_self_io_map_events)
next
  case False
  from call_protocol_not_reset [OF assms False] show ?thesis .
qed

theorem call_follows_protocol_witness:
  "sht4x_call OpReset \<lparr>sht_address = 0x44, sht_mode = 0xFD\<rparr> accepting_bus =
     ((Inr VNone, \<lparr>sht_address = 0x44, sht_mode = 0xFD\<rparr>),
      accepting_bus\<lparr>bus_log := [Xfer (I2cWrite 0x44 [0x94]) [0x94], Sleep 0.001]\<rparr>)
   \<and> (\<exists>es data. [Xfer (I2cWrite 0x44 [0x94]) [0x94], Sleep 0.001] = bus_log accepting_bus @ es
        \<and> es = op_events OpReset \<lparr>sht_address = 0x44, sht_mode = 0xFD\<rparr> data)"
proof -
  have c: "sht4x_call OpReset \<lparr>sht_address = 0x44, sht_mode = 0xFD\<rparr> accepting_bus =
     ((Inr VNone, \<lparr>sht_address = 0x44, sht_mode = 0xFD\<rparr>),
      accepting_bus\<lparr>bus_log := [Xfer (I2cWrite 0x44 [0x94]) [0x94], Sleep 0.001]\<rparr>)"
    by (simp add: reset_run keep_self_def io_map_def io_bind_def SHT4X_SOFTRESET_def accepting_bus_def)
  show ?thesis using c call_follows_protocol [OF c] by simp
qed

section \<open>Runs of calls\<close>

text \<open>
  C13. A program that makes any sequence of calls on one object talks to the object's
  address only, and makes at most two bus transactions per call (a write and a read, no
  retries); the object keeps its address throughout.
\<close>

theorem run_one_address_bounded:
  assumes "sht4x_run ops self b = ((rs, self'), b')"
  shows "\<exists>es. bus_log b' = bus_log b @ es \<and> sht_address self' = sht_address self
           \<and> set (List.map_filter xfer_addr es) \<subseteq> {sht_address self}
           \<and> length (List.map_filter xfer_addr es) \<le> 2 * length ops"
  using assms
proof (induction ops arbitrary: self b rs)
  case Nil
  then show ?case by (auto simp: map_filter_simps)
next
  case (Cons op ops)
  obtain r s1 b1 where c: "sht4x_call op self b = ((r, s1), b1)" by (metis prod.exhaust)
  with Cons.prems obtain rs' where run: "sht4x_run ops s1 b1 = ((rs', self'), b')"
    by (auto split: prod.splits)
  obtain es1 where es1: "bus_log b1 = bus_log b @ es1" "set (List.map_filter xfer_addr es1) \<subseteq> {sht_address self}"
      "length (List.map_filter xfer_addr es1) \<le> 2"
    using call_xfers [OF c] by blast
  obtain es2 where es2: "bus_log b' = bus_log b1 @ es2" "sht_address self' = sht_address s1"
      "set (List.map_filter xfer_addr es2) \<subseteq> {sht_address s1}"
      "length (List.map_filter xfer_addr es2) \<le> 2 * length ops"
    using Cons.IH [OF run] by blast
  have a: "sht_address s1 = sht_address self" by (rule call_keeps_address [OF c])
  show ?case
    using es1 es2 a by (intro exI [of _ "es1 @ es2"]) (auto simp: map_filter_def)
qed

theorem run_one_address_bounded_witness:
  "sht4x_run [OpReset, OpGetMode] \<lparr>sht_address = 0x44, sht_mode = 0xFD\<rparr> accepting_bus =
     (([Inr VNone, Inr (VInt 0xFD)], \<lparr>sht_address = 0x44, sht_mode = 0xFD\<rparr>),
      accepting_bus\<lparr>bus_log := [Xfer (I2cWrite 0x44 [0x94]) [0x94], Sleep 0.001]\<rparr>)
   \<and> (\<exists>es. [Xfer (I2cWrite 0x44 [0x94]) [0x94], Sleep 0.001] = bus_log accepting_bus @ es
        \<and> set (List.map_filter xfer_addr es) \<subseteq> {0x44} \<and> length (List.map_filter xfer_addr es) \<le> 4)"
proof -
  have c: "sht4x_run [OpReset, OpGetMode] \<lparr>sht_address = 0x44, sht_mode = 0xFD\<rparr> accepting_bus =
     (([Inr VNone, Inr (VInt 0xFD)], \<lparr>sht_address = 0x44, sht_mode = 0xFD\<rparr>),
      accepting_bus\<lparr>bus_log := [Xfer (I2cWrite 0x44 [0x94]) [0x94], Sleep 0.001]\<rparr>)"
    by (simp add: reset_run keep_self_def io_map_def io_bind_def SHT4X_SOFTRESET_def
                  accepting_bus_def get_mode_def)
  show ?thesis using c run_one_address_bounded [OF c] by simp
qed

end
