(* ===== verification/CRC_Poly.thy ===== *)
theory CRC_Poly
  imports CRC8
begin

text \<open>
  The abstract specification of the checksum (spec section 4.2): CRC-8 with generator
  polynomial x^8 + x^5 + x^4 + 1 and initial value 0xFF is the remainder, modulo the
  generator, of the message polynomial times x^8 plus the initial value times x^(8n).
  Polynomials over GF(2) are natural numbers read as bit vectors: addition is \<open>XOR\<close>,
  multiplication by x is \<open>push_bit 1\<close>, and \<open>clmul\<close> is carry-less multiplication.
  \<open>gf2_cong g a b\<close> says that \<open>a\<close> and \<open>b\<close> differ by a multiple of \<open>g\<close>. The
  register (\<open>CRC8.crc8w_loop\<close>) is shown to keep its value congruent to the message
  read so far, one shift step being multiplication by x; as two bytes that are congruent
  are equal, the driver's \<open>_crc8\<close> is exactly the remainder the specification names.
\<close>

unbundle bit_operations_syntax

section \<open>Polynomials over GF(2)\<close>

text \<open>Carry-less multiplication: \<open>a * g\<close> with the partial products added by XOR.\<close>

fun clmul :: "nat \<Rightarrow> nat \<Rightarrow> nat" where
  "clmul a g = (if a = 0 then 0 else (if odd a then g else 0) XOR push_bit 1 (clmul (a div 2) g))"

declare clmul.simps [simp del]

text \<open>Congruence modulo \<open>g\<close>: the difference (which is the sum) is a multiple of \<open>g\<close>.\<close>

definition gf2_cong :: "nat \<Rightarrow> nat \<Rightarrow> nat \<Rightarrow> bool" where
  "gf2_cong g a b \<longleftrightarrow> (\<exists>q. a XOR b = clmul q g)"

section \<open>The specification\<close>

text \<open>The generator x^8 + x^5 + x^4 + 1.\<close>

definition crc8_poly :: nat where
  "crc8_poly = 0x131"

text \<open>The message polynomial of a byte string, first byte highest.\<close>

primrec bytes_val :: "byte list \<Rightarrow> nat" where
  "bytes_val [] = 0"
| "bytes_val (b # bs) = push_bit (8 * length bs) (unat b) XOR bytes_val bs"

text \<open>
  What the remainder is taken of: the message times x^8, with the initial value 0xFF
  added at the top (times x^(8n)), which is the effect of starting the register at 0xFF.
\<close>

definition crc8_message :: "byte list \<Rightarrow> nat" where
  "crc8_message bs = push_bit (8 * length bs) 0xFF XOR push_bit 8 (bytes_val bs)"

definition is_crc8 :: "byte list \<Rightarrow> nat \<Rightarrow> bool" where
  "is_crc8 bs r \<longleftrightarrow> r < 256 \<and> gf2_cong crc8_poly r (crc8_message bs)"

section \<open>Carry-less arithmetic\<close>


lemma clmul_0 [simp]: "clmul 0 g = 0"
  by (simp add: clmul.simps)

lemma clmul_1 [simp]: "clmul 1 g = g" "clmul (Suc 0) g = g"
  by (simp_all add: clmul.simps)

lemma clmul_rec:
  "clmul a g = (if odd a then g else 0) XOR push_bit 1 (clmul (a div 2) g)"
  by (cases "a = 0") (simp_all add: clmul.simps [of a])

lemma clmul_xor: "clmul (a XOR b) g = clmul a g XOR clmul b g"
proof (induction "a + b" arbitrary: a b rule: less_induct)
  case less
  show ?case
  proof (cases "a = 0 \<or> b = 0")
    case True
    then show ?thesis by auto
  next
    case False
    have "a div 2 < a" "b div 2 < b" using False by simp_all
    then have lt: "a div 2 + b div 2 < a + b" by linarith
    have d: "(a XOR b) div 2 = a div 2 XOR b div 2"
      by (rule bit_eqI) (simp add: bit_xor_iff flip: bit_Suc)
    show ?thesis
      using less(1) [OF lt]
      by (subst (1 2 3) clmul_rec) (auto simp: d push_bit_xor even_xor_iff ac_simps)
  qed
qed

lemma clmul_double: "clmul (a * 2) g = clmul a g * 2"
  by (subst clmul_rec) simp

lemma clmul_push_bit: "clmul (push_bit k a) g = push_bit k (clmul a g)"
  by (induction k arbitrary: a) (simp_all add: push_bit_Suc clmul_double)

lemma gf2_cong_refl [simp]: "gf2_cong g a a"
  unfolding gf2_cong_def by (rule exI [of _ 0]) simp

lemma gf2_cong_sym: "gf2_cong g a b \<Longrightarrow> gf2_cong g b a"
  unfolding gf2_cong_def by (metis xor.commute)

lemma gf2_cong_trans [trans]: "gf2_cong g a b \<Longrightarrow> gf2_cong g b c \<Longrightarrow> gf2_cong g a c"
proof -
  assume "gf2_cong g a b" "gf2_cong g b c"
  then obtain p q where "a XOR b = clmul p g" "b XOR c = clmul q g"
    unfolding gf2_cong_def by blast
  then have "a XOR c = clmul (p XOR q) g"
    by (metis clmul_xor xor.assoc xor_left_self)
  then show ?thesis unfolding gf2_cong_def by blast
qed

lemma gf2_cong_xor:
  "gf2_cong g a b \<Longrightarrow> gf2_cong g c d \<Longrightarrow> gf2_cong g (a XOR c) (b XOR d)"
proof -
  assume "gf2_cong g a b" "gf2_cong g c d"
  then obtain p q where "a XOR b = clmul p g" "c XOR d = clmul q g"
    unfolding gf2_cong_def by blast
  moreover have "(a XOR c) XOR (b XOR d) = (a XOR b) XOR (c XOR d)"
    by (simp add: ac_simps)
  ultimately have "(a XOR c) XOR (b XOR d) = clmul (p XOR q) g"
    by (simp add: clmul_xor)
  then show ?thesis unfolding gf2_cong_def by blast
qed

lemma gf2_cong_push_bit: "gf2_cong g a b \<Longrightarrow> gf2_cong g (push_bit k a) (push_bit k b)"
proof -
  assume "gf2_cong g a b"
  then obtain q where "a XOR b = clmul q g"
    unfolding gf2_cong_def by blast
  then have "push_bit k a XOR push_bit k b = clmul (push_bit k q) g"
    by (simp add: clmul_push_bit flip: push_bit_xor)
  then show ?thesis unfolding gf2_cong_def by blast
qed

section \<open>The register computes the remainder\<close>

text \<open>One shift step of the register is multiplication by x, reduced modulo the generator.\<close>

lemma bit_7_byte_iff: "bit (y :: byte) 7 \<longleftrightarrow> 128 \<le> unat y"
proof -
  have u: "unat y < 256" using unsigned_less [of y] by simp
  have "bit y 7 \<longleftrightarrow> bit (unat y) 7" by (simp add: bit_unsigned_iff)
  also have "\<dots> \<longleftrightarrow> odd (unat y div 128)" by (simp add: bit_nat_def)
  also have "\<dots> \<longleftrightarrow> 128 \<le> unat y"
  proof (cases "128 \<le> unat y")
    case True
    then have "unat y div 128 = 1" using u by (simp add: le_div_geq)
    then show ?thesis using True by simp
  qed simp
  finally show ?thesis .
qed

lemma unat_push_bit_1_byte: "unat ((y :: byte) * 2) = (unat y * 2) mod 256"
proof -
  have e: "y * 2 = push_bit 1 y" by (simp add: push_bit_eq_mult)
  show ?thesis
    by (simp only: e unsigned_push_bit_eq) (simp add: take_bit_eq_mod push_bit_eq_mult)
qed

lemma nat_less_256_xor_256: "(r :: nat) < 256 \<Longrightarrow> r + 256 = r XOR 256"
proof -
  assume r: "r < 256"
  have "\<not> bit r 8" using r by (simp add: bit_nat_def)
  then have "r AND 2 ^ 8 = 0" using and_exp_eq_0_iff_not_bit [of r 8] by simp
  then show ?thesis by (simp add: disjunctive_add_eq_xor)
qed

lemma crc8w_shift_cong: "gf2_cong 0x131 (unat (crc8w_shift y)) (push_bit 1 (unat y))"
proof (cases "bit y 7")
  case True
  define r where "r = unat y * 2 - 256"
  have u: "128 \<le> unat y" "unat y < 256"
    using True unsigned_less [of y] by (simp_all add: bit_7_byte_iff)
  then have r: "r < 256" "unat y * 2 = r XOR 256"
    using nat_less_256_xor_256 [of r] by (simp_all add: r_def)
  have "unat y * 2 = r + 256" using u by (simp add: r_def)
  then have m: "unat y * 2 mod 256 = r" using r(1) by simp
  have "crc8w_shift y = y * 2 XOR 0x31"
    using True by (simp add: crc8w_shift_def and_0x80_iff_bit push_bit_eq_mult)
  then have "unat (crc8w_shift y) = r XOR 49"
    by (simp only: unsigned_xor_eq unat_push_bit_1_byte m) simp
  moreover have p: "push_bit 1 (unat y) = unat y * 2" by (simp add: push_bit_eq_mult)
  ultimately have "unat (crc8w_shift y) XOR push_bit 1 (unat y) = (r XOR 49) XOR (r XOR 256)"
    by (simp only: r(2))
  also have "\<dots> = clmul 1 0x131"
    by (simp only: clmul_1) (simp add: ac_simps)
  finally show ?thesis unfolding gf2_cong_def by blast
next
  case False
  have u: "unat y < 128" using False bit_7_byte_iff [of y] by simp
  have "crc8w_shift y = y * 2"
    using False by (simp add: crc8w_shift_def and_0x80_iff_bit push_bit_eq_mult)
  then have "unat (crc8w_shift y) = unat y * 2"
    using u by (simp only: unat_push_bit_1_byte) simp
  moreover have "push_bit 1 (unat y) = unat y * 2" by (simp add: push_bit_eq_mult)
  ultimately show ?thesis by (simp only: gf2_cong_refl)
qed

lemma crc8w_bits_cong: "gf2_cong 0x131 (unat (crc8w_bits n y)) (push_bit n (unat y))"
proof (induction n arbitrary: y)
  case 0
  then show ?case by simp
next
  case (Suc n)
  have "gf2_cong 0x131 (unat (crc8w_bits n (crc8w_shift y))) (push_bit n (unat (crc8w_shift y)))"
    by (rule Suc.IH)
  also have "gf2_cong 0x131 \<dots> (push_bit n (push_bit 1 (unat y)))"
    by (rule gf2_cong_push_bit [OF crc8w_shift_cong])
  finally show ?case by (simp add: push_bit_push_bit)
qed

lemma crc8w_loop_cong:
  "gf2_cong 0x131 (unat (crc8w_loop c bs))
     (push_bit (8 * length bs) (unat c) XOR push_bit 8 (bytes_val bs))"
proof (induction bs arbitrary: c)
  case Nil
  then show ?case by simp
next
  case (Cons b bs)
  let ?n = "8 * length bs"
  have "gf2_cong 0x131 (unat (crc8w_loop c (b # bs)))
      (push_bit ?n (unat (crc8w_bits 8 (c XOR b))) XOR push_bit 8 (bytes_val bs))"
    using Cons.IH by simp
  also have "gf2_cong 0x131 \<dots> (push_bit ?n (push_bit 8 (unat c XOR unat b)) XOR push_bit 8 (bytes_val bs))"
    using crc8w_bits_cong [of 8 "c XOR b"]
    by (intro gf2_cong_xor gf2_cong_push_bit) (simp_all add: unsigned_xor_eq)
  also have "push_bit ?n (push_bit 8 (unat c XOR unat b)) XOR push_bit 8 (bytes_val bs)
      = push_bit (8 * length (b # bs)) (unat c) XOR push_bit 8 (bytes_val (b # bs))"
    by (simp add: push_bit_push_bit ac_simps)
  finally show ?case .
qed

text \<open>A non-zero multiple of the generator has degree at least 8: remainders are unique.\<close>

lemma nat_xor_ge_512: "(y :: nat) < 512 \<Longrightarrow> 512 \<le> z \<Longrightarrow> 512 \<le> y XOR z"
proof -
  assume y: "y < 512" and z: "512 \<le> z"
  have "drop_bit 9 y = 0" using y by (simp add: drop_bit_eq_div)
  moreover have "drop_bit 9 z \<noteq> 0" using z by (simp add: drop_bit_eq_div)
  ultimately have "drop_bit 9 (y XOR z) \<noteq> 0" by simp
  then show ?thesis by (simp add: drop_bit_eq_div)
qed

lemma clmul_0x131_ge: "q \<noteq> 0 \<Longrightarrow> 256 \<le> clmul q 0x131"
proof (induction q rule: less_induct)
  case (less q)
  show ?case
  proof (cases "q div 2 = 0")
    case True
    then have "q = 1" using less.prems by simp
    then show ?thesis by simp
  next
    case False
    have "256 \<le> clmul (q div 2) 0x131"
      using less.IH [of "q div 2"] less.prems False by simp
    then have "512 \<le> push_bit 1 (clmul (q div 2) 0x131)" by (simp add: push_bit_eq_mult)
    then have "512 \<le> (if odd q then 0x131 else 0) XOR push_bit 1 (clmul (q div 2) 0x131)"
      by (intro nat_xor_ge_512) simp_all
    then show ?thesis by (subst clmul_rec) simp
  qed
qed

lemma gf2_cong_byte_unique:
  "gf2_cong 0x131 a b \<Longrightarrow> a < 256 \<Longrightarrow> b < 256 \<Longrightarrow> a = b"
proof -
  assume c: "gf2_cong 0x131 a b" and a: "a < 256" and b: "b < 256"
  then obtain q where q: "a XOR b = clmul q 0x131" unfolding gf2_cong_def by blast
  have "a XOR b < 256"
  proof -
    have "drop_bit 8 (a XOR b) = 0" using a b by (simp only: drop_bit_xor) (simp add: drop_bit_eq_div)
    then show ?thesis by (simp add: drop_bit_eq_div)
  qed
  then have "q = 0" using q clmul_0x131_ge [of q] by fastforce
  then have "a XOR b = 0" using q by simp
  then show "a = b" by (metis xor_left_self xor.right_neutral)
qed

lemma crc8_word_cong: "gf2_cong crc8_poly (unat (crc8w_loop 0xFF bs)) (crc8_message bs)"
  using crc8w_loop_cong [of "0xFF" bs] by (simp add: crc8_poly_def crc8_message_def)

lemma crc8_word_remainder_unique:
  assumes "r < 256" and "gf2_cong crc8_poly r (crc8_message bs)"
  shows "r = unat (crc8w_loop 0xFF bs)"
proof -
  have "gf2_cong crc8_poly r (unat (crc8w_loop 0xFF bs))"
    using assms(2) crc8_word_cong gf2_cong_sym gf2_cong_trans by blast
  then show ?thesis
    using assms(1) unsigned_less [of "crc8w_loop 0xFF bs"] gf2_cong_byte_unique
    unfolding crc8_poly_def by simp
qed

section \<open>Refinement of the specification\<close>

text \<open>
  C5. The driver's \<open>_crc8\<close> refines the polynomial specification of spec section 4.2:
  a number \<open>r\<close> is the remainder of the message (initial value 0xFF, message times x^8)
  modulo x^8 + x^5 + x^4 + 1 exactly when \<open>r\<close> is what \<open>_crc8\<close> returns.
\<close>

theorem crc8_is_poly_remainder: "is_crc8 bs r \<longleftrightarrow> int r = crc8 bs"
proof
  assume "is_crc8 bs r"
  then have "r = unat (crc8w_loop 0xFF bs)"
    unfolding is_crc8_def by (blast intro: crc8_word_remainder_unique)
  then show "int r = crc8 bs" by (simp add: crc8_take_bit)
next
  assume "int r = crc8 bs"
  then have "int r = uint (crc8w_loop 0xFF bs)" by (simp add: crc8_take_bit)
  then have "r = unat (crc8w_loop 0xFF bs)" by (metis nat_int unat_eq_nat_uint)
  then show "is_crc8 bs r"
    using crc8_word_cong [of bs] unsigned_less [of "crc8w_loop 0xFF bs"] unfolding is_crc8_def by simp
qed

theorem crc8_is_poly_remainder_witness:
  "is_crc8 [0xBE, 0xEF] 0x92 \<and> int 0x92 = crc8 [0xBE, 0xEF]"
proof -
  have e: "int 0x92 = crc8 [0xBE, 0xEF]" by (simp add: crc8_def eval_simps)
  show ?thesis using e crc8_is_poly_remainder [of "[0xBE, 0xEF]" "0x92"] by simp
qed

end
