(* ===== verification/Handle_Spec.thy ===== *)
theory Handle_Spec
  imports Runs
begin

text \<open>
  The device handle as spec.md describes it (sections 3, 4.1, 4.3, 6, 7), independently of
  the source: a handle of an address and a mode code, the nine-entry mode table of 4.1,
  the operations \<open>reset\<close>, \<open>set_mode\<close>, \<open>get_mode\<close>, \<open>read_serial_number\<close> and
  \<open>read_measurement\<close> over the transport collaborator (write, read, sleep), with the error
  kinds InvalidArgument, ChecksumError and TransportError. The checksum is the 8-bit
  register CRC of 4.2 (\<open>crc8_word\<close>); the serial number is assembled with OR of shifts, the
  humidity clamped to [0.0, 100.0] as a real. The abstraction maps the driver's object to a
  handle, its exceptions to the spec's error kinds (\<open>abs_error\<close>) and its values to the
  spec's (\<open>abs_value\<close>: an int humidity of Python's \<open>min\<close>/\<open>max\<close> is read as its value).
  The refinement: every method call of the driver on an object with a valid mode does what
  the spec's operation does, on every bus (\<open>call_refines\<close>), and so does every sequence
  of calls, \<open>Runs.sht4x_run\<close> against the spec's \<open>spec_run\<close>, since a call keeps the mode
  valid.
\<close>

unbundle bit_operations_syntax

section \<open>The specification\<close>

datatype spec_error = InvalidArgument | ChecksumError | TransportError

type_synonym 'a spec_result = "spec_error + 'a"
type_synonym 'a spec_io = "bus \<Rightarrow> 'a spec_result \<times> bus"

record handle =
  h_address :: int
  h_mode :: int

text \<open>Section 4.1: the nine codes with their settling delays in seconds.\<close>

definition spec_mode_table :: "(int \<times> string \<times> real) list" where
  "spec_mode_table =
     [(0xFD, ''high-precision no-heat'', 0.01), (0xF6, ''medium-precision no-heat'', 0.005),
      (0xE0, ''low-precision no-heat'', 0.002), (0x39, ''high-heat-1s'', 1.1),
      (0x32, ''high-heat-100ms'', 0.11), (0x2F, ''med-heat-1s'', 1.1),
      (0x24, ''med-heat-100ms'', 0.11), (0x1E, ''low-heat-1s'', 1.1),
      (0x15, ''low-heat-100ms'', 0.11)]"

definition spec_is_valid_mode :: "int \<Rightarrow> bool" where
  "spec_is_valid_mode c = (c \<in> set (map fst spec_mode_table))"

definition spec_settle :: "int \<Rightarrow> real option" where
  "spec_settle c = map_of (map (\<lambda>(c, l, d). (c, d)) spec_mode_table) c"

text \<open>Section 6: the transport collaborator; any failure is a TransportError.\<close>

definition spec_transport :: "'a io \<Rightarrow> 'a spec_io" where
  "spec_transport m b = (case m b of (Inl _, b') \<Rightarrow> (Inl TransportError, b') | (Inr x, b') \<Rightarrow> (Inr x, b'))"

definition spec_write :: "int \<Rightarrow> byte list \<Rightarrow> unit spec_io" where
  "spec_write a bs = spec_transport (io_map (\<lambda>_. ()) (i2c_rdwr (I2cWrite a bs)))"

definition spec_read :: "int \<Rightarrow> nat \<Rightarrow> byte list spec_io" where
  "spec_read a n = spec_transport (i2c_rdwr (I2cRead a n))"

definition spec_sleep :: "real \<Rightarrow> unit spec_io" where
  "spec_sleep d = spec_transport (time_sleep d)"

definition spec_bind :: "'a spec_io \<Rightarrow> ('a \<Rightarrow> 'b spec_io) \<Rightarrow> 'b spec_io" where
  "spec_bind m f b = (case m b of (Inl e, b') \<Rightarrow> (Inl e, b') | (Inr x, b') \<Rightarrow> f x b')"

definition spec_lift :: "'a spec_result \<Rightarrow> 'a spec_io" where
  "spec_lift r b = (r, b)"

text \<open>Section 6: the response frame, two fields each followed by its checksum.\<close>

definition spec_frame_ok :: "byte list \<Rightarrow> bool" where
  "spec_frame_ok d = (crc8_word [d ! 0, d ! 1] = d ! 2 \<and> crc8_word [d ! 3, d ! 4] = d ! 5)"

definition spec_be16 :: "byte \<Rightarrow> byte \<Rightarrow> int" where
  "spec_be16 hi lo = uint hi * 256 + uint lo"

text \<open>Section 4.3: the decoding of a measurement, humidity clamped to [0, 100].\<close>

definition spec_decode :: "byte list \<Rightarrow> real \<times> real" where
  "spec_decode d = (-45 + 175 * real_of_int (spec_be16 (d ! 0) (d ! 1)) / 65535,
                    min (max (-6 + 125 * real_of_int (spec_be16 (d ! 3) (d ! 4)) / 65535) 0) 100)"

text \<open>Section 4.3: the serial number, \<open>(g1[0] << 24) | (g1[1] << 16) | (g2[0] << 8) | g2[1]\<close>.\<close>

definition spec_serial :: "byte list \<Rightarrow> int" where
  "spec_serial d = ((push_bit 24 (uint (d ! 0)) OR push_bit 16 (uint (d ! 1))) OR push_bit 8 (uint (d ! 3)))
                   OR uint (d ! 4)"

text \<open>Section 4.3: the operations.\<close>

definition spec_reset :: "handle \<Rightarrow> unit spec_io" where
  "spec_reset h = spec_bind (spec_write (h_address h) [0x94]) (\<lambda>_. spec_sleep 0.001)"

definition spec_set_mode :: "handle \<Rightarrow> int \<Rightarrow> handle spec_result" where
  "spec_set_mode h c = (if spec_is_valid_mode c then Inr (h\<lparr>h_mode := c\<rparr>) else Inl InvalidArgument)"

definition spec_read_serial_number :: "handle \<Rightarrow> int spec_io" where
  "spec_read_serial_number h =
     spec_bind (spec_write (h_address h) [0x89]) (\<lambda>_.
     spec_bind (spec_sleep 0.01) (\<lambda>_.
     spec_bind (spec_read (h_address h) 6) (\<lambda>d.
     spec_lift (if \<not> spec_frame_ok d then Inl ChecksumError else Inr (spec_serial d)))))"

definition spec_read_measurement :: "handle \<Rightarrow> (real \<times> real) spec_io" where
  "spec_read_measurement h =
     (case spec_settle (h_mode h) of
        None \<Rightarrow> spec_lift (Inl InvalidArgument)
      | Some delay \<Rightarrow>
          spec_bind (spec_write (h_address h) [word_of_int (h_mode h)]) (\<lambda>_.
          spec_bind (spec_sleep delay) (\<lambda>_.
          spec_bind (spec_read (h_address h) 6) (\<lambda>d.
          spec_lift (if \<not> spec_frame_ok d then Inl ChecksumError else Inr (spec_decode d))))))"

text \<open>
  A call of an operation on a handle: its value, the handle after it (changed only by a
  successful \<open>set_mode\<close>) and the bus. Temperature and humidity alone are the two halves
  of a measurement (the source's properties; section 9 makes them explicit reads).
\<close>

datatype spec_value = SNone | SInt int | SReal real | SMeasurement real real

definition spec_map :: "('a \<Rightarrow> 'b) \<Rightarrow> 'a spec_io \<Rightarrow> 'b spec_io" where
  "spec_map f m = spec_bind m (\<lambda>x. spec_lift (Inr (f x)))"

definition spec_keep :: "handle \<Rightarrow> spec_value spec_io \<Rightarrow> bus \<Rightarrow> (spec_value spec_result \<times> handle) \<times> bus" where
  "spec_keep h m b = (case m b of (r, b') \<Rightarrow> ((r, h), b'))"

fun spec_call :: "sht4x_op \<Rightarrow> handle \<Rightarrow> bus \<Rightarrow> (spec_value spec_result \<times> handle) \<times> bus" where
  "spec_call OpReset h = spec_keep h (spec_map (\<lambda>_. SNone) (spec_reset h))"
| "spec_call OpSerialNumber h = spec_keep h (spec_map SInt (spec_read_serial_number h))"
| "spec_call OpGetMode h = spec_keep h (spec_lift (Inr (SInt (h_mode h))))"
| "spec_call (OpSetMode c) h =
     (\<lambda>b. case spec_set_mode h c of Inl e \<Rightarrow> ((Inl e, h), b) | Inr h' \<Rightarrow> ((Inr SNone, h'), b))"
| "spec_call OpMeasurements h = spec_keep h (spec_map (\<lambda>(t, u). SMeasurement t u) (spec_read_measurement h))"
| "spec_call OpTemperature h = spec_keep h (spec_map (\<lambda>(t, u). SReal t) (spec_read_measurement h))"
| "spec_call OpRelativeHumidity h = spec_keep h (spec_map (\<lambda>(t, u). SReal u) (spec_read_measurement h))"

text \<open>A program's sequence of calls on one handle, as \<open>Runs.sht4x_run\<close> makes them.\<close>

fun spec_run :: "sht4x_op list \<Rightarrow> handle \<Rightarrow> bus \<Rightarrow> (spec_value spec_result list \<times> handle) \<times> bus" where
  "spec_run [] h b = (([], h), b)"
| "spec_run (op # ops) h b =
     (case spec_call op h b of
        ((r, h'), b') \<Rightarrow> (case spec_run ops h' b' of ((rs, h''), b'') \<Rightarrow> ((r # rs, h''), b'')))"

section \<open>The abstraction\<close>

definition abs_handle :: "sht4x \<Rightarrow> handle" where
  "abs_handle self = \<lparr>h_address = sht_address self, h_mode = sht_mode self\<rparr>"

fun abs_error :: "py_error \<Rightarrow> spec_error option" where
  "abs_error AttributeError = Some InvalidArgument"
| "abs_error RuntimeError = Some ChecksumError"
| "abs_error OSError = Some TransportError"
| "abs_error IndexError = None"
| "abs_error StructError = None"
| "abs_error KeyError = None"
| "abs_error ValueError = None"

fun rel_result :: "('a \<Rightarrow> 'b) \<Rightarrow> 'a result \<Rightarrow> 'b spec_result \<Rightarrow> bool" where
  "rel_result f (Inl e) (Inl e') = (abs_error e = Some e')"
| "rel_result f (Inr x) (Inr y) = (f x = y)"
| "rel_result f _ _ = False"

definition abs_measurement :: "real \<times> pynum \<Rightarrow> real \<times> real" where
  "abs_measurement m = (fst m, py_val (snd m))"

fun abs_value :: "sht4x_value \<Rightarrow> spec_value" where
  "abs_value VNone = SNone"
| "abs_value (VInt i) = SInt i"
| "abs_value (VReal r) = SReal r"
| "abs_value (VNum n) = SReal (py_val n)"
| "abs_value (VMeasurement t h) = SMeasurement t (py_val h)"

lemma spec_settle_Mode: "spec_settle = cv_delay Mode"
  by (rule ext) (simp add: spec_settle_def spec_mode_table_def Mode_delay)

lemma spec_is_valid_mode_Mode: "spec_is_valid_mode = is_valid Mode"
  by (rule ext) (simp add: spec_is_valid_mode_def spec_mode_table_def is_valid_Mode_cases)

section \<open>Refinement of the measurement\<close>

lemma crc8_check_spec: "(uint c \<noteq> crc8 bs) \<longleftrightarrow> (crc8_word bs \<noteq> c)"
  by (metis crc8_take_bit crc8_word_def word_uint_eq_iff)

lemma py_val_convert_humidity:
  "py_val (convert_humidity h) = min (max (-6 + 125 * real_of_int h / 65535) 0) 100"
  by (simp add: convert_humidity_def py_min_def py_max_def Let_def)

lemma frame_refines:
  assumes "length r = 6"
  shows "rel_result abs_measurement (rbind (split_response r) (\<lambda>(x, y). decode_measurement x y))
           (if \<not> spec_frame_ok r then Inl ChecksumError else Inr (spec_decode r))"
  using assms
  by (cases rule: length_6_cases)
     (simp add: split_response_6 crc8_check_spec spec_frame_ok_def rbind_def decode_measurement_def
                unpack_be16_def abs_measurement_def spec_decode_def spec_be16_def
                py_val_convert_humidity convert_temperature_def)

lemma measurements_refines:
  assumes "is_valid Mode (sht_mode self)"
  shows "snd (spec_read_measurement (abs_handle self) b) = snd (measurements self b)
         \<and> rel_result abs_measurement (fst (measurements self b)) (fst (spec_read_measurement (abs_handle self) b))"
proof -
  have "cv_delay Mode (sht_mode self) \<noteq> None"
    using assms by (auto simp: is_valid_Mode_cases Mode_delay simp del: not_None_eq)
  then obtain delay where d: "cv_delay Mode (sht_mode self) = Some delay" by blast
  show ?thesis
    using frame_refines [OF length_msg_buffer_read] Mode_delay_byte [of "sht_mode self"] d
    by (auto simp del: msg_buffer.simps(2) simp: measurements_run spec_read_measurement_def spec_settle_Mode d abs_handle_def
        spec_bind_def spec_write_def spec_sleep_def spec_read_def spec_lift_def spec_transport_def
        io_map_def io_bind_def io_return_def i2c_rdwr_def time_sleep_def Let_def
        split: option.splits)
qed

section \<open>Refinement of the other operations\<close>

lemma serial_frame_refines:
  assumes "length r = 6"
  shows "rel_result id (rbind (split_response r) (\<lambda>(x, y). assemble_serial x y))
           (if \<not> spec_frame_ok r then Inl ChecksumError else Inr (spec_serial r))"
  using assms
  by (cases rule: length_6_cases)
     (simp add: split_response_6 crc8_check_spec spec_frame_ok_def rbind_def assemble_serial_pairs
                serial_bytes_add_or spec_serial_def)

lemma serial_number_refines:
  "snd (spec_read_serial_number (abs_handle self) b) = snd (serial_number self b)
   \<and> rel_result id (fst (serial_number self b)) (fst (spec_read_serial_number (abs_handle self) b))"
  using serial_frame_refines [OF length_msg_buffer_read]
  by (auto simp del: msg_buffer.simps(2) simp: serial_number_run spec_read_serial_number_def
      abs_handle_def SHT4X_READSERIAL_def spec_bind_def spec_write_def spec_sleep_def spec_read_def
      spec_lift_def spec_transport_def io_map_def io_bind_def io_return_def i2c_rdwr_def
      time_sleep_def Let_def split: option.splits)

lemma reset_refines:
  "snd (spec_reset (abs_handle self) b) = snd (reset (sht_address self) b)
   \<and> rel_result id (fst (reset (sht_address self) b)) (fst (spec_reset (abs_handle self) b))"
  by (auto simp: reset_run spec_reset_def abs_handle_def SHT4X_SOFTRESET_def spec_bind_def
      spec_write_def spec_sleep_def spec_transport_def io_map_def io_bind_def io_return_def
      i2c_rdwr_def time_sleep_def Let_def split: option.splits)

lemma set_mode_refines:
  "rel_result abs_handle (set_mode self c) (spec_set_mode (abs_handle self) c)"
  by (simp add: set_mode_def spec_set_mode_def spec_is_valid_mode_Mode abs_handle_def)

lemma io_map_io_map: "io_map g (io_map f m) = io_map (\<lambda>x. g (f x)) m"
  by (rule ext) (simp add: io_map_def io_bind_def io_return_def split: prod.splits sum.splits)

lemma keep_map_refines:
  assumes "snd (m' b) = snd (m b) \<and> rel_result f (fst (m b)) (fst (m' b))"
    and "\<And>x. g' (f x) = abs_value (g x)"
  shows "snd (spec_keep (abs_handle self) (spec_map g' m') b) = snd (keep_self self (io_map g m) b)
         \<and> snd (fst (spec_keep (abs_handle self) (spec_map g' m') b))
             = abs_handle (snd (fst (keep_self self (io_map g m) b)))
         \<and> rel_result abs_value (fst (fst (keep_self self (io_map g m) b)))
             (fst (fst (spec_keep (abs_handle self) (spec_map g' m') b)))"
  using assms
  by (cases "m b" rule: prod.exhaust, cases "m' b" rule: prod.exhaust)
     (auto simp: spec_keep_def spec_map_def spec_bind_def spec_lift_def keep_self_def io_map_def
        io_bind_def io_return_def elim: rel_result.elims)

lemma measurement_call_refines:
  assumes "is_valid Mode (sht_mode self)" and "\<And>x. g' (abs_measurement x) = abs_value (g x)"
  shows "snd (spec_keep (abs_handle self) (spec_map g' (spec_read_measurement (abs_handle self))) b)
           = snd (keep_self self (io_map g (measurements self)) b)
         \<and> snd (fst (spec_keep (abs_handle self) (spec_map g' (spec_read_measurement (abs_handle self))) b))
             = abs_handle (snd (fst (keep_self self (io_map g (measurements self)) b)))
         \<and> rel_result abs_value (fst (fst (keep_self self (io_map g (measurements self)) b)))
             (fst (fst (spec_keep (abs_handle self) (spec_map g' (spec_read_measurement (abs_handle self))) b)))"
  by (rule keep_map_refines [where m = "measurements self" and m' = "spec_read_measurement (abs_handle self)"
        and f = abs_measurement and g' = g' and g = g, OF measurements_refines [OF assms(1)] assms(2)])

section \<open>The refinement theorem\<close>

lemma call_refines:
  assumes "is_valid Mode (sht_mode self)"
  shows "snd (spec_call op (abs_handle self) b) = snd (sht4x_call op self b)
         \<and> snd (fst (spec_call op (abs_handle self) b)) = abs_handle (snd (fst (sht4x_call op self b)))
         \<and> rel_result abs_value (fst (fst (sht4x_call op self b))) (fst (fst (spec_call op (abs_handle self) b)))"
proof (cases op)
  case OpReset
  have "\<And>x. (\<lambda>_. SNone) (id x) = abs_value ((\<lambda>_. VNone) x)" by simp
  from keep_map_refines [where m = "reset (sht_address self)" and m' = "spec_reset (abs_handle self)"
        and f = id and g' = "\<lambda>_. SNone" and g = "\<lambda>_. VNone", OF reset_refines this]
  show ?thesis unfolding OpReset spec_call.simps sht4x_call.simps .
next
  case OpSerialNumber
  have "\<And>x. SInt (id x) = abs_value (VInt x)" by simp
  from keep_map_refines [where m = "serial_number self" and m' = "spec_read_serial_number (abs_handle self)"
        and f = id and g' = SInt and g = VInt, OF serial_number_refines this]
  show ?thesis unfolding OpSerialNumber spec_call.simps sht4x_call.simps .
next
  case OpGetMode
  then show ?thesis
    by (simp add: spec_keep_def spec_lift_def keep_self_def io_return_def get_mode_def abs_handle_def)
next
  case (OpSetMode c)
  then show ?thesis using set_mode_refines [of self c]
    by (cases "set_mode self c"; cases "spec_set_mode (abs_handle self) c")
       (auto simp: abs_handle_def)
next
  case OpMeasurements
  show ?thesis unfolding OpMeasurements spec_call.simps sht4x_call.simps
    by (rule measurement_call_refines [OF assms]) (simp add: abs_measurement_def split_def)
next
  case OpTemperature
  show ?thesis unfolding OpTemperature spec_call.simps sht4x_call.simps temperature_def io_map_io_map
    by (rule measurement_call_refines [OF assms]) (simp add: abs_measurement_def split_def)
next
  case OpRelativeHumidity
  show ?thesis unfolding OpRelativeHumidity spec_call.simps sht4x_call.simps relative_humidity_def io_map_io_map
    by (rule measurement_call_refines [OF assms]) (simp add: abs_measurement_def split_def)
qed

text \<open>
  C7. The driver implements the spec's device handle: for every sequence of method calls
  on an object whose mode is valid, on every bus, the run leaves the bus as the spec's run
  of the same operations on the abstract handle does, ends in the abstraction of the spec's
  final handle, and each call returns the abstraction of the spec's value or raises the
  Python exception of the spec's error kind (AttributeError for InvalidArgument,
  RuntimeError for ChecksumError, OSError for TransportError).
\<close>

theorem run_refines_spec:
  assumes "is_valid Mode (sht_mode self)"
  shows "snd (spec_run ops (abs_handle self) b) = snd (sht4x_run ops self b)
         \<and> snd (fst (spec_run ops (abs_handle self) b)) = abs_handle (snd (fst (sht4x_run ops self b)))
         \<and> list_all2 (rel_result abs_value) (fst (fst (sht4x_run ops self b)))
             (fst (fst (spec_run ops (abs_handle self) b)))"
  using assms
proof (induction ops arbitrary: self b)
  case Nil
  then show ?case by simp
next
  case (Cons op ops)
  obtain r s1 b1 where c: "sht4x_call op self b = ((r, s1), b1)" by (metis prod.exhaust)
  obtain r' h1 b1' where c': "spec_call op (abs_handle self) b = ((r', h1), b1')" by (metis prod.exhaust)
  from call_refines [OF Cons.prems, of op b] c c'
  have b1: "b1' = b1" and h1: "h1 = abs_handle s1" and r: "rel_result abs_value r r'" by simp_all
  have "is_valid Mode (sht_mode s1)" using sht4x_call_obj [OF c] Cons.prems by auto
  moreover obtain rs s2 b2 where run: "sht4x_run ops s1 b1 = ((rs, s2), b2)" by (metis prod.exhaust)
  moreover obtain rs' h2 b2' where run': "spec_run ops h1 b1 = ((rs', h2), b2')" by (metis prod.exhaust)
  ultimately have "b2' = b2 \<and> h2 = abs_handle s2 \<and> list_all2 (rel_result abs_value) rs rs'"
    using Cons.IH [of s1 b1] h1 by simp
  then show ?case by (simp add: c c' b1 r run run')
qed

theorem run_refines_spec_witness:
  "is_valid Mode 0xFD
   \<and> fst (fst (sht4x_run [OpReset, OpGetMode] \<lparr>sht_address = 0x44, sht_mode = 0xFD\<rparr> accepting_bus))
     = [Inr VNone, Inr (VInt 0xFD)]
   \<and> list_all2 (rel_result abs_value) [Inr VNone, Inr (VInt 0xFD)]
       (fst (fst (spec_run [OpReset, OpGetMode] (abs_handle \<lparr>sht_address = 0x44, sht_mode = 0xFD\<rparr>)
          accepting_bus)))
   \<and> snd (spec_run [OpReset, OpGetMode] (abs_handle \<lparr>sht_address = 0x44, sht_mode = 0xFD\<rparr>) accepting_bus)
     = snd (sht4x_run [OpReset, OpGetMode] \<lparr>sht_address = 0x44, sht_mode = 0xFD\<rparr> accepting_bus)"
proof -
  have v: "is_valid Mode (sht_mode \<lparr>sht_address = 0x44, sht_mode = 0xFD\<rparr>)"
    by (simp add: is_valid_Mode_cases)
  have c: "fst (fst (sht4x_run [OpReset, OpGetMode] \<lparr>sht_address = 0x44, sht_mode = 0xFD\<rparr> accepting_bus))
     = [Inr VNone, Inr (VInt 0xFD)]"
    by (simp add: reset_run keep_self_def io_map_def io_bind_def io_return_def SHT4X_SOFTRESET_def
                  accepting_bus_def get_mode_def)
  show ?thesis using v c run_refines_spec [OF v, of "[OpReset, OpGetMode]" accepting_bus] by simp
qed

end
