(* ===== verification/Spec2Isabelle.thy ===== *)
theory Spec2Isabelle
  imports Protocol CRC_Poly Handle_Spec
begin

text \<open>
  \<^bold>\<open>Verification of the SHT4x sensor driver\<close> (src/SHT4X/SHT4X.py).

  \<^bold>\<open>The program.\<close> One Python module drives a Sensirion SHT4x humidity and temperature
  sensor over I2C. It has three parts: the mode table (class \<open>CV\<close> and its subclass
  \<open>Mode\<close>, lines 13-52: nine command codes, each with a label and a settling delay), the
  checksum (\<open>SHT4x._crc8\<close>, lines 152-163: CRC-8, polynomial 0x31, initial value 0xFF)
  and the driver class \<open>SHT4x\<close> (lines 55-148: \<open>__init__\<close>, \<open>reset\<close>, the
  \<open>serial_number\<close> property, the \<open>mode\<close> property and its setter, \<open>measurements\<close> and
  the \<open>temperature\<close> and \<open>relative_humidity\<close> properties built on it). The driver writes
  a one-byte command to the bus, sleeps, reads six bytes, checks the two checksums with
  \<open>_crc8\<close>, and decodes; the mode table gives the command byte and the delay of a
  measurement and validates the mode setter. The bus (smbus2) and \<open>time.sleep\<close> are
  external.

  \<^bold>\<open>The theories.\<close>
  \<^item> \<open>Prelude\<close>: the byte type, the Python exceptions as the datatype \<open>py_error\<close>
    and results as \<open>py_error + 'a\<close>, Python indexing (\<open>py_index\<close>, IndexError), slicing
    and dict lookup (\<open>py_dict_get\<close>, KeyError), the theorem collections and shared word
    lemmas.
  \<^item> \<open>CRC8\<close>: \<open>crc8\<close> with its two loops \<open>crc8_loop\<close> and \<open>crc8_bits\<close>, on an
    unbounded \<open>int\<close> as Python computes it (the accumulator is masked only at the end);
    the reference \<open>crc8_word\<close> on an 8-bit register; their equality; linearity of the
    register over GF(2); the parity of the weight the register keeps (\<open>byte_weight\<close>);
    the condition \<open>field_error_undetected\<close> under which an error pattern passes the
    check of a field, and what follows for error detection.
  \<^item> \<open>CRC_Poly\<close>: the specification of the checksum as a polynomial remainder over
    GF(2) (spec 4.2): carry-less multiplication \<open>clmul\<close>, congruence \<open>gf2_cong\<close>
    modulo the generator \<open>crc8_poly\<close> (x^8 + x^5 + x^4 + 1), the message polynomial
    \<open>crc8_message\<close> and the predicate \<open>is_crc8\<close>; the proof that the register computes
    it.
  \<^item> \<open>Mode\<close>: the class as a record of its attributes and its two dictionaries,
    \<open>add_values\<close> (a recursion over the tuples), \<open>is_valid\<close>, the table
    \<open>mode_values\<close> and the class \<open>Mode\<close>.
  \<^item> \<open>Transport\<close>: the world the driver acts on, a record \<open>bus\<close> of the log of
    completed transactions and sleeps and of the device (a function from the log and the
    message to its answer, None for a failed transaction); \<open>i2c_rdwr\<close>, \<open>time_sleep\<close>
    and the sequencing \<open>io_bind\<close> that stops at the first exception; \<open>py_bytes\<close>, the
    \<open>bytes()\<close> conversion of \<open>i2c_msg.write\<close> (ValueError outside 0..255). Modelled from the
    spec and smbus2's contract, not from the repository.
  \<^item> \<open>Frame\<close>: the pure processing of a six-byte response (\<open>split_response\<close>: slice,
    index, compare checksums), the serial number (\<open>assemble_serial\<close>), the big-endian
    field (\<open>unpack_be16\<close>), the conversions (\<open>convert_temperature\<close>,
    \<open>convert_humidity\<close> with Python's \<open>min\<close>/\<open>max\<close> over \<open>pynum\<close>, an int or a
    float), the reference encoder \<open>response_frame\<close> of a correct sensor, and corruption
    in transit: \<open>flip_frame_bit\<close> flips one bit of a frame and \<open>flip_frame_bits\<close> a
    list of them, \<open>bit_error\<close> and \<open>bits_error\<close> are the same flips as an error
    pattern; an odd number of flips in a field, or any one to three distinct flips, make
    \<open>split_response\<close> raise.
  \<^item> \<open>Device\<close>: the object as the record \<open>sht4x\<close> (address, \<open>_mode\<close>), one
    definition per method (\<open>sht4x_init\<close>, \<open>reset\<close>, \<open>serial_number\<close>, \<open>get_mode\<close>,
    \<open>set_mode\<close>, \<open>measurements\<close>, \<open>temperature\<close>, \<open>relative_humidity\<close>), the step
    function \<open>sht4x_call\<close> that runs one method call on an object and a bus, and the
    inductive \<open>sht4x_reachable\<close>: every object and bus a constructor call and any
    sequence of method calls, failed ones included, can produce.
  \<^item> \<open>Runs\<close>: programs that use the driver, a list of calls run by \<open>sht4x_run\<close> with
    every exception caught; \<open>result_ok\<close> (the type and range of each method's value and
    its documented exceptions) and \<open>correct_sensor\<close> (a device that acknowledges writes
    and answers reads with correctly checksummed frames).
  \<^item> \<open>Protocol\<close>: the bus events of each method call (\<open>op_events\<close>, from Runs)
    and the proof that every call of \<open>sht4x_call\<close> appends a prefix of them, all of them
    when it returns, and leaves the object unchanged when it raises; over a run of calls,
    every transaction (\<open>xfer_addr\<close>) goes to the object's address, at most two per call.
  \<^item> \<open>Handle_Spec\<close>: the device handle as spec.md states it, written from the spec and
    not from the source: the handle record \<open>handle\<close>, the table \<open>spec_mode_table\<close> of
    4.1, the error kinds \<open>spec_error\<close> of section 7, the transport of section 6
    (\<open>spec_write\<close>, \<open>spec_read\<close>, \<open>spec_sleep\<close>, any failure a TransportError), the
    operations \<open>spec_reset\<close>, \<open>spec_set_mode\<close>, \<open>spec_read_serial_number\<close> (OR of
    shifts) and \<open>spec_read_measurement\<close> (humidity clamped as a real), and \<open>spec_call\<close>.
    The abstraction (\<open>abs_handle\<close>, \<open>abs_error\<close>, \<open>abs_value\<close>, related by
    \<open>rel_result\<close>) and the refinement of every method call, and of every run of calls
    (\<open>spec_run\<close>), by the spec's operations.
  \<^item> this theory: the properties that span the components.

  \<^bold>\<open>How the code is modelled.\<close> Python ints are \<open>int\<close>; bytes of a \<open>bytearray\<close>
  are \<open>8 word\<close> read by \<open>uint\<close>; the mode written by \<open>measurements\<close> goes through
  smbus2's \<open>bytes()\<close>, so a \<open>_mode\<close> outside 0..255 raises ValueError instead of
  wrapping; Python floats are \<open>real\<close>, so the conversion formulas are exact and IEEE
  rounding is not modelled; the results of \<open>min\<close> and \<open>max\<close> keep their int or float type
  (\<open>pynum\<close>). Every exception of the source is a value \<open>Inl e\<close>; every effect on the
  bus is an entry appended to the log; an object whose method raised is unchanged. The
  loops of \<open>_crc8\<close> are structural recursions (eight iterations, one per buffer byte), so
  every definition is total and executable and the witnesses evaluate them by \<open>simp\<close>;
  no fuel or bound is needed.

  \<^bold>\<open>What is proved.\<close> End to end: a measurement against a sensor that answers with a
  correct frame returns the datasheet formulas of the raw values; a frame in which one field
  saw an odd number of bit flips, or with one to three distinct bits flipped anywhere, raises
  RuntimeError; the serial number round-trips through a frame. Checksum: \<open>_crc8\<close>
  equals the 8-bit register CRC-8 and is the polynomial remainder of the spec, it
  distinguishes any two fields that differ in one byte, and its check of a field catches
  every error of odd weight, whatever the length of the data. The two-bit case is by
  linearity: the images of one bit under eight and sixteen register steps are evaluated
  (16 cases) and none is a single bit; the odd cases by parity, which every register step
  keeps. Driver: the mode invariant holds in every reachable state; the setter's behaviour
  on every input; \<open>reset\<close> and \<open>__init__\<close>; the bus events of every method call (a prefix
  of its write, sleep, read; all of them when it returns; no retries; no change of the
  object when it raises), and over any run of calls one address and at most two
  transactions per call; the exceptions of a measurement on any object (ValueError exactly
  for a non-byte mode, KeyError only for a mode without delay, never IndexError or a struct
  error) and never KeyError on a reachable object; the ranges of temperature, humidity and
  serial number. Mode class: \<open>add_values\<close> keeps the two dictionaries on the same keys.
  Programs: in any sequence of calls on a constructed object every outcome is a documented
  value or exception, and against a correct sensor every call with valid arguments returns
  a value. Refinement: on every object with a valid mode, every sequence of method calls
  does what the spec's operations do on the abstract handle, on every bus (same bus, same
  handle, the spec's value or the Python exception of the spec's error kind).

  \<^bold>\<open>Not modelled.\<close> Opening the bus (\<open>SMBus(bus)\<close> in \<open>__init__\<close>), the kernel's
  I2C transfer and the real duration of \<open>time.sleep\<close>: they are the external collaborators
  of the spec; IEEE floating-point rounding; the module's commented-out test script (lines
  166-170), which is not executed, and whose calls are a run of \<open>sht4x_run\<close> as theory
  Runs treats them.

  \<^bold>\<open>Further work.\<close> A model of the sensor chip as a state machine (idle,
  measuring, reset) from the datasheet, and the driver's timing against it; Python's IEEE
  doubles for the conversions.
\<close>

unbundle bit_operations_syntax

section \<open>End-to-end properties\<close>

text \<open>
  C1. A measurement on an object with a valid mode, against a bus that accepts the command
  and then answers the read with a correct frame of raw values \<open>t\<close> and \<open>h\<close>, returns
  \<open>(-45 + 175 t / 65535, max(min(-6 + 125 h / 65535, 100), 0))\<close>.
\<close>

theorem measure_correct_frame:
  assumes "cv_delay Mode (sht_mode self) = Some d"
    and "bus_device b (bus_log b) (I2cWrite (sht_address self) [word_of_int (sht_mode self)]) \<noteq> None"
    and "bus_device b (bus_log b @ [Xfer (I2cWrite (sht_address self) [word_of_int (sht_mode self)])
            [word_of_int (sht_mode self)], Sleep d]) (I2cRead (sht_address self) 6)
         = Some (response_frame t h)"
  shows "fst (measurements self b) = Inr (convert_temperature (uint t), convert_humidity (uint h))"
  using assms Mode_delay_byte [of "sht_mode self"]
  by (auto simp: measurements_run Let_def split_response_frame decode_measurement_def
                 unpack_be16_be_bytes simp del: msg_buffer.simps)

theorem measure_correct_frame_witness:
  "cv_delay Mode (sht_mode \<lparr>sht_address = 0x44, sht_mode = 0xFD\<rparr>) = Some 0.01
   \<and> answering (response_frame 0x6666 0x8000) [] (I2cWrite 0x44 [word_of_int 0xFD]) \<noteq> None
   \<and> answering (response_frame 0x6666 0x8000)
       [Xfer (I2cWrite 0x44 [word_of_int 0xFD]) [word_of_int 0xFD], Sleep 0.01] (I2cRead 0x44 6)
     = Some (response_frame 0x6666 0x8000)
   \<and> fst (measurements \<lparr>sht_address = 0x44, sht_mode = 0xFD\<rparr>
          \<lparr>bus_log = [], bus_device = answering (response_frame 0x6666 0x8000)\<rparr>)
     = Inr (convert_temperature (uint (0x6666 :: 16 word)), convert_humidity (uint (0x8000 :: 16 word)))"
proof -
  have d: "cv_delay Mode (sht_mode \<lparr>sht_address = 0x44, sht_mode = 0xFD\<rparr>) = Some 0.01"
    by (simp add: Mode_delay)
  show ?thesis
    using d measure_correct_frame [OF d, of "\<lparr>bus_log = [], bus_device = answering (response_frame 0x6666 0x8000)\<rparr>"
        "0x6666" "0x8000"]
    by (simp add: answering_def)
qed

text \<open>
  C2. If the frame a measurement reads is a correct frame in which bits were flipped, one
  after the other at positions \<open>is\<close> (a position may repeat), and one of the two fields
  saw an odd number of flips, the measurement raises RuntimeError. In particular any single
  flipped bit, in a data byte or a checksum byte, is caught.
\<close>

theorem measure_odd_flips_detected:
  assumes "list_all (\<lambda>i. i < 48) is"
    and "odd (length (filter (\<lambda>i. i < 24) is)) \<or> odd (length (filter (\<lambda>i. 24 \<le> i) is))"
    and "cv_delay Mode (sht_mode self) = Some d"
    and "bus_device b (bus_log b) (I2cWrite (sht_address self) [word_of_int (sht_mode self)]) \<noteq> None"
    and "bus_device b (bus_log b @ [Xfer (I2cWrite (sht_address self) [word_of_int (sht_mode self)])
            [word_of_int (sht_mode self)], Sleep d]) (I2cRead (sht_address self) 6)
         = Some (flip_frame_bits is (response_frame t h))"
  shows "fst (measurements self b) = Inl RuntimeError"
  using assms(3-) split_odd_flips_frame [OF assms(1,2)] Mode_delay_byte [of "sht_mode self"]
  by (auto simp: measurements_run Let_def simp del: msg_buffer.simps)

text \<open>
  C3. If the frame a measurement reads is a correct frame with one, two or three distinct
  bits flipped, anywhere in its six bytes, the measurement raises RuntimeError: the check
  of the two fields has Hamming distance at least four.
\<close>

theorem measure_few_flips_detected:
  assumes "list_all (\<lambda>i. i < 48) is" and "distinct is" and "1 \<le> length is" and "length is \<le> 3"
    and "cv_delay Mode (sht_mode self) = Some d"
    and "bus_device b (bus_log b) (I2cWrite (sht_address self) [word_of_int (sht_mode self)]) \<noteq> None"
    and "bus_device b (bus_log b @ [Xfer (I2cWrite (sht_address self) [word_of_int (sht_mode self)])
            [word_of_int (sht_mode self)], Sleep d]) (I2cRead (sht_address self) 6)
         = Some (flip_frame_bits is (response_frame t h))"
  shows "fst (measurements self b) = Inl RuntimeError"
  using assms(5-) split_few_flips_frame [OF assms(1-4)] Mode_delay_byte [of "sht_mode self"]
  by (auto simp: measurements_run Let_def simp del: msg_buffer.simps)

text \<open>
  C10. Round trip: when the sensor answers the serial-number read with the frame of the 16-bit
  words \<open>hi\<close> and \<open>lo\<close>, \<open>serial_number\<close> returns the 32-bit value \<open>hi * 2^16 + lo\<close>
  (for the words 0x1234 and 0x5678, the spec's 0x12345678).
\<close>

theorem serial_number_roundtrip:
  assumes "bus_device b (bus_log b) (I2cWrite (sht_address self) [0x89]) \<noteq> None"
    and "bus_device b (bus_log b @ [Xfer (I2cWrite (sht_address self) [0x89]) [0x89], Sleep 0.01])
           (I2cRead (sht_address self) 6) = Some (response_frame hi lo)"
  shows "fst (serial_number self b) = Inr (uint hi * 65536 + uint lo)"
proof -
  have v: "push_bit 24 (uint (ucast (drop_bit 8 hi) :: byte)) + push_bit 16 (uint (ucast hi :: byte))
      + push_bit 8 (uint (ucast (drop_bit 8 lo) :: byte)) + uint (ucast lo :: byte) = uint hi * 65536 + uint lo"
    using uint_be_bytes [of hi] uint_be_bytes [of lo] by (simp add: push_bit_eq_mult algebra_simps)
  show ?thesis
    using assms v
    by (auto simp: serial_number_run Let_def SHT4X_READSERIAL_def split_response_frame be_bytes_def
                   assemble_serial_pairs simp del: msg_buffer.simps)
qed

text \<open>
  C17. The constructor writes the soft-reset command 0x94 and sleeps 1 ms before it sets the
  mode, and the new object has the given address and mode \<open>NOHEAT_HIGHPRECISION\<close> (0xFD).
\<close>

theorem init_resets_then_default_mode:
  assumes "bus_device b (bus_log b) (I2cWrite addr [0x94]) \<noteq> None"
  shows "sht4x_init addr b =
    (Inr \<lparr>sht_address = addr, sht_mode = 0xFD\<rparr>,
     b\<lparr>bus_log := bus_log b @ [Xfer (I2cWrite addr [0x94]) [0x94], Sleep 0.001]\<rparr>)"
  using assms
  by (auto simp: sht4x_init_def reset_run io_bind_def Mode_attrs SHT4X_SOFTRESET_def)

theorem measure_odd_flips_detected_witness:
  "list_all (\<lambda>i. i < 48) [3, 10, 40::nat]
   \<and> odd (length (filter (\<lambda>i. 24 \<le> i) [3, 10, 40::nat]))
   \<and> cv_delay Mode (sht_mode \<lparr>sht_address = 0x44, sht_mode = 0xFD\<rparr>) = Some 0.01
   \<and> answering (flip_frame_bits [3, 10, 40] (response_frame 0x6666 0x8000)) [] (I2cWrite 0x44 [word_of_int 0xFD]) \<noteq> None
   \<and> answering (flip_frame_bits [3, 10, 40] (response_frame 0x6666 0x8000))
       [Xfer (I2cWrite 0x44 [word_of_int 0xFD]) [word_of_int 0xFD], Sleep 0.01] (I2cRead 0x44 6)
     = Some (flip_frame_bits [3, 10, 40] (response_frame 0x6666 0x8000))
   \<and> fst (measurements \<lparr>sht_address = 0x44, sht_mode = 0xFD\<rparr>
          \<lparr>bus_log = [], bus_device = answering (flip_frame_bits [3, 10, 40] (response_frame 0x6666 0x8000))\<rparr>)
     = Inl RuntimeError"
proof -
  have o: "odd (length (filter (\<lambda>i. 24 \<le> i) [3, 10, 40::nat]))" by simp
  have h: "list_all (\<lambda>i. i < 48) [3, 10, 40::nat]"
    "odd (length (filter (\<lambda>i. i < 24) [3, 10, 40::nat])) \<or> odd (length (filter (\<lambda>i. 24 \<le> i) [3, 10, 40::nat]))"
    using o by simp_all
  have d: "cv_delay Mode (sht_mode \<lparr>sht_address = 0x44, sht_mode = 0xFD\<rparr>) = Some 0.01"
    by (simp add: Mode_delay)
  show ?thesis
    using h d measure_odd_flips_detected [OF h d,
        of "\<lparr>bus_log = [], bus_device = answering (flip_frame_bits [3, 10, 40] (response_frame 0x6666 0x8000))\<rparr>" "0x6666" "0x8000"]
    by (simp add: answering_def)
qed

theorem measure_few_flips_detected_witness:
  "list_all (\<lambda>i. i < 48) [10, 20, 30::nat] \<and> distinct [10, 20, 30::nat]
   \<and> 1 \<le> length [10, 20, 30::nat] \<and> length [10, 20, 30::nat] \<le> 3
   \<and> cv_delay Mode (sht_mode \<lparr>sht_address = 0x44, sht_mode = 0xFD\<rparr>) = Some 0.01
   \<and> answering (flip_frame_bits [10, 20, 30] (response_frame 0x6666 0x8000)) [] (I2cWrite 0x44 [word_of_int 0xFD]) \<noteq> None
   \<and> answering (flip_frame_bits [10, 20, 30] (response_frame 0x6666 0x8000))
       [Xfer (I2cWrite 0x44 [word_of_int 0xFD]) [word_of_int 0xFD], Sleep 0.01] (I2cRead 0x44 6)
     = Some (flip_frame_bits [10, 20, 30] (response_frame 0x6666 0x8000))
   \<and> fst (measurements \<lparr>sht_address = 0x44, sht_mode = 0xFD\<rparr>
          \<lparr>bus_log = [], bus_device = answering (flip_frame_bits [10, 20, 30] (response_frame 0x6666 0x8000))\<rparr>)
     = Inl RuntimeError"
proof -
  have h: "list_all (\<lambda>i. i < 48) [10, 20, 30::nat]" "distinct [10, 20, 30::nat]"
    "1 \<le> length [10, 20, 30::nat]" "length [10, 20, 30::nat] \<le> 3"
    by simp_all
  have d: "cv_delay Mode (sht_mode \<lparr>sht_address = 0x44, sht_mode = 0xFD\<rparr>) = Some 0.01"
    by (simp add: Mode_delay)
  show ?thesis
    using h d measure_few_flips_detected [OF h d,
        of "\<lparr>bus_log = [], bus_device = answering (flip_frame_bits [10, 20, 30] (response_frame 0x6666 0x8000))\<rparr>" "0x6666" "0x8000"]
    by (simp add: answering_def)
qed

theorem serial_number_roundtrip_witness:
  "answering (response_frame 0x1234 0x5678) [] (I2cWrite 0x44 [0x89]) \<noteq> None
   \<and> answering (response_frame 0x1234 0x5678) [Xfer (I2cWrite 0x44 [0x89]) [0x89], Sleep 0.01]
       (I2cRead 0x44 6) = Some (response_frame 0x1234 0x5678)
   \<and> fst (serial_number \<lparr>sht_address = 0x44, sht_mode = 0xFD\<rparr>
          \<lparr>bus_log = [], bus_device = answering (response_frame 0x1234 0x5678)\<rparr>) = Inr 0x12345678"
  using serial_number_roundtrip [of "\<lparr>bus_log = [], bus_device = answering (response_frame 0x1234 0x5678)\<rparr>"
      "\<lparr>sht_address = 0x44, sht_mode = 0xFD\<rparr>" "0x1234" "0x5678"]
  by (simp add: answering_def)

theorem init_resets_then_default_mode_witness:
  "bus_device accepting_bus (bus_log accepting_bus) (I2cWrite 0x44 [0x94]) \<noteq> None
   \<and> sht4x_init 0x44 accepting_bus =
    (Inr \<lparr>sht_address = 0x44, sht_mode = 0xFD\<rparr>,
     accepting_bus\<lparr>bus_log := [Xfer (I2cWrite 0x44 [0x94]) [0x94], Sleep 0.001]\<rparr>)"
  using init_resets_then_default_mode [of accepting_bus "0x44"]
  by (simp add: accepting_bus_def)

theorem measurements_range_witness:
  "measurements \<lparr>sht_address = 0x44, sht_mode = 0xFD\<rparr>
       \<lparr>bus_log = [], bus_device = answering (response_frame 0x6666 0x8000)\<rparr>
     = (Inr (convert_temperature 26214, convert_humidity 32768),
        snd (measurements \<lparr>sht_address = 0x44, sht_mode = 0xFD\<rparr>
               \<lparr>bus_log = [], bus_device = answering (response_frame 0x6666 0x8000)\<rparr>))
   \<and> -45 \<le> convert_temperature 26214 \<and> convert_temperature 26214 \<le> 130
   \<and> 0 \<le> py_val (convert_humidity 32768) \<and> py_val (convert_humidity 32768) \<le> 100"
proof -
  have f: "fst (measurements \<lparr>sht_address = 0x44, sht_mode = 0xFD\<rparr>
       \<lparr>bus_log = [], bus_device = answering (response_frame 0x6666 0x8000)\<rparr>)
     = Inr (convert_temperature 26214, convert_humidity 32768)"
    by (simp add: measurements_run Let_def answering_def Mode_delay split_response_frame
                  decode_measurement_def unpack_be16_be_bytes del: msg_buffer.simps)
  then have r: "measurements \<lparr>sht_address = 0x44, sht_mode = 0xFD\<rparr>
       \<lparr>bus_log = [], bus_device = answering (response_frame 0x6666 0x8000)\<rparr>
     = (Inr (convert_temperature 26214, convert_humidity 32768),
        snd (measurements \<lparr>sht_address = 0x44, sht_mode = 0xFD\<rparr>
               \<lparr>bus_log = [], bus_device = answering (response_frame 0x6666 0x8000)\<rparr>))"
    by (metis prod.collapse)
  show ?thesis using r Device.measurements_range [OF r] by simp
qed

end
